theory Spec2Isabelle
  imports
    Main
    "HOL-Library.Char_ord"
    "HOL-Library.List_Lexorder"
    "HOL-Library.Multiset"
    "HOL-Library.Sublist"
begin

section \<open>The embedding panel: selection, debounce and analysis dispatch\<close>

text \<open>
  A shallow embedding of \<^verbatim>\<open>Frontend/src/components/panels/EmbeddingPanel.tsx\<close>.
  The React component is modelled as a record holding its props, its \<^verbatim>\<open>useState\<close> cells and
  its \<^verbatim>\<open>useRef\<close> cell, together with the part of the JavaScript runtime the handlers talk to:
  the clock, the pending timers created by \<^verbatim>\<open>setTimeout\<close>, the pending \<^verbatim>\<open>fetch\<close> promises and
  the calls made to \<^verbatim>\<open>fetchEmbeddings\<close> of the embedding context.

  Conventions of the model:
  \<^item> every handler, timer callback and promise continuation runs to completion and its state
    updates are applied as one update (the batching of React 18); a handler that is called is
    the one of the latest render, so the values it closes over are the current ones;
  \<^item> a timer callback and an \<^verbatim>\<open>async\<close> function keep the values they closed over when they
    were created: they are stored in the pending timer and in the pending request;
  \<^item> \<^verbatim>\<open>Array.prototype.sort()\<close> without comparator orders strings by code unit; the model
    orders \<^typ>\<open>string\<close> lexicographically by character code (the two agree on ASCII);
  \<^item> the parsed JSON values are not inspected by the code: they are a type parameter \<open>'j\<close>.
\<close>

subsection \<open>JavaScript library functions\<close>

text \<open>\<^verbatim>\<open>Array.prototype.join(sep)\<close> on an array of strings.\<close>

fun join :: "string list \<Rightarrow> string \<Rightarrow> string" where
  "join [] sep = []"
| "join [x] sep = x"
| "join (x # y # ys) sep = x @ sep @ join (y # ys) sep"

text \<open>\<^verbatim>\<open>String.prototype.includes(sub)\<close>: \<open>sub\<close> occurs in \<open>s\<close> at some position.\<close>

fun includes_str :: "string \<Rightarrow> string \<Rightarrow> bool" where
  "includes_str [] sub = (sub = [])"
| "includes_str (c # cs) sub = (prefix sub (c # cs) \<or> includes_str cs sub)"

text \<open>A number inside a template literal: its decimal digits.\<close>

fun string_of_nat :: "nat \<Rightarrow> string" where
  "string_of_nat n =
     (if n < 10 then [''0123456789'' ! n]
      else string_of_nat (n div 10) @ [''0123456789'' ! (n mod 10)])"

declare string_of_nat.simps [simp del]

text \<open>
  A value that is thrown or that a promise rejects with. The \<^verbatim>\<open>catch\<close> blocks read
  \<^verbatim>\<open>error instanceof Error ? error.message : 'Unknown error occurred'\<close>.
\<close>

datatype js_exn = Error string | NonError

fun error_message :: "js_exn \<Rightarrow> string" where
  "error_message (Error m) = m"
| "error_message NonError = ''Unknown error occurred''"

text \<open>
  What \<^verbatim>\<open>await fetch(...)\<close> gives: the promise rejects, or it resolves to a response with a
  status, and with what \<^verbatim>\<open>response.text()\<close> and \<^verbatim>\<open>response.json()\<close> resolve to or reject with.
  \<^verbatim>\<open>response.ok\<close> is true for the statuses 200 to 299.
\<close>

datatype 'j response =
  Response (status: nat) (res_text: "js_exn + string") (res_json: "js_exn + 'j")

definition ok :: "'j response \<Rightarrow> bool" where
  "ok r = (200 \<le> status r \<and> status r \<le> 299)"

datatype 'j outcome = Rejected js_exn | Resolved "'j response"

subsection \<open>Data model\<close>

text \<open>\<^verbatim>\<open>'predictions' | 'common-terms' | 'audio-features'\<close>\<close>

datatype AnalysisKind = predictions | common_terms | audio_features

text \<open>
  A pending timer: its handle, the time at which it is due, and what its callback closed over
  (\<^verbatim>\<open>selectedFiles\<close>, and through \<^verbatim>\<open>fetchAnalysis\<close> the \<^verbatim>\<open>analysisType\<close>, \<^verbatim>\<open>model\<close> and \<^verbatim>\<open>dataset\<close>
  of the render that created it).
\<close>

record timer =
  handle :: nat
  due :: nat
  t_files :: "string list"
  t_analysisType :: AnalysisKind
  t_model :: string
  t_dataset :: string

text \<open>
  A pending backend call: the promise it waits on, which of the three \<^verbatim>\<open>async\<close> functions
  waits (by the kind it serves), and the JSON body that was posted. \<open>promise\<close> is the identity
  of the pending promise in the runtime; the component never reads it.
\<close>

record request =
  promise :: nat
  r_kind :: AnalysisKind
  r_filenames :: "string list"
  r_model :: "string option"
  r_dataset :: "string option"

text \<open>One call of \<^verbatim>\<open>fetchEmbeddings(model, dataset, files, method, nComponents)\<close>.\<close>

record projection =
  p_model :: string
  p_dataset :: string
  p_files :: "string list"
  p_method :: string
  p_nComponents :: nat

record 'j panel =
  model :: string
  dataset :: string
  availableFiles :: "string list"
  embeddingData :: "'j option"
  reductionMethod :: string
  is3D :: bool
  analysisType :: AnalysisKind
  selectedByAngle :: "string list"
  selectedPoints2D :: "string list"
  audioFrequencyAnalysis :: "'j option"
  batchPrediction :: "'j option"
  whisperAnalysis :: "'j option"
  isLoadingAnalysis :: bool
  analysisError :: "string option"
  debounceRef :: "nat option"
  now :: nat
  nextHandle :: nat
  timers :: "timer list"
  nextPromise :: nat
  inflight :: "request list"
  embeddingRequests :: "projection list"

subsection \<open>Analysis kinds of a model\<close>

definition getAvailableAnalysisTypes :: "string \<Rightarrow> AnalysisKind list" where
  "getAvailableAnalysisTypes m =
     (if m = ''wav2vec2'' then [predictions, audio_features]
      else if includes_str m ''whisper'' then [common_terms, audio_features]
      else [audio_features])"

definition clearAnalysisResults :: "'j panel \<Rightarrow> 'j panel" where
  "clearAnalysisResults s =
     s\<lparr>audioFrequencyAnalysis := None, batchPrediction := None, whisperAnalysis := None\<rparr>"

text \<open>The effect with dependency \<^verbatim>\<open>[model]\<close>.\<close>

definition model_effect :: "'j panel \<Rightarrow> 'j panel" where
  "model_effect s =
     (let availableTypes = getAvailableAnalysisTypes (model s) in
      if analysisType s \<notin> set availableTypes
      then clearAnalysisResults (s\<lparr>analysisType := availableTypes ! 0\<rparr>)
      else s)"

subsection \<open>Embedding requests\<close>

definition fetchEmbeddings ::
  "string \<Rightarrow> string \<Rightarrow> string list \<Rightarrow> string \<Rightarrow> nat \<Rightarrow> 'j panel \<Rightarrow> 'j panel" where
  "fetchEmbeddings m d fs method n s =
     s\<lparr>embeddingRequests := embeddingRequests s @
        [\<lparr>p_model = m, p_dataset = d, p_files = fs, p_method = method, p_nComponents = n\<rparr>]\<rparr>"

text \<open>
  The effect with dependencies \<^verbatim>\<open>[model, dataset, availableFiles, reductionMethod,
  fetchEmbeddings]\<close>. A string is truthy when it is not empty.
\<close>

definition embedding_effect :: "'j panel \<Rightarrow> 'j panel" where
  "embedding_effect s =
     (if availableFiles s \<noteq> [] \<and> model s \<noteq> [] \<and> dataset s \<noteq> []
      then fetchEmbeddings (model s) (dataset s) (availableFiles s) (reductionMethod s)
             (if is3D s then 3 else 2) s
      else s)"

definition handleFetchEmbeddings :: "'j panel \<Rightarrow> 'j panel" where
  "handleFetchEmbeddings s =
     (if availableFiles s \<noteq> []
      then fetchEmbeddings (model s) (dataset s) (availableFiles s) (reductionMethod s)
             (if is3D s then 3 else 2) s
      else s)"

text \<open>
  \<^verbatim>\<open>setReductionMethod(method)\<close>; the embedding effect runs again when the stored method
  changed.
\<close>

definition handleReductionMethodChange :: "string \<Rightarrow> 'j panel \<Rightarrow> 'j panel" where
  "handleReductionMethodChange method s =
     (if method \<noteq> reductionMethod s
      then embedding_effect (s\<lparr>reductionMethod := method\<rparr>)
      else s)"

definition handle3DToggle :: "bool \<Rightarrow> 'j panel \<Rightarrow> 'j panel" where
  "handle3DToggle checked s =
     (let s1 = s\<lparr>is3D := checked\<rparr> in
      if embeddingData s \<noteq> None \<and> availableFiles s \<noteq> []
      then fetchEmbeddings (model s) (dataset s) (availableFiles s) (reductionMethod s)
             (if checked then 3 else 2) s1
      else s1)"

text \<open>
  A render with new props. The effects whose dependencies changed run after it, in the
  order of the source. (React compares \<^verbatim>\<open>availableFiles\<close> by reference, so it also runs the
  effect for a new array with the same contents; the model runs it when the contents differ.)
\<close>

definition rerender :: "string \<Rightarrow> string \<Rightarrow> string list \<Rightarrow> 'j panel \<Rightarrow> 'j panel" where
  "rerender m d fs s =
     (let s1 = s\<lparr>model := m, dataset := d, availableFiles := fs\<rparr>;
          s2 = (if m \<noteq> model s then model_effect s1 else s1)
      in if m \<noteq> model s \<or> d \<noteq> dataset s \<or> fs \<noteq> availableFiles s
         then embedding_effect s2 else s2)"

subsection \<open>The three backend calls\<close>

text \<open>
  Each \<^verbatim>\<open>async\<close> function is split at its \<^verbatim>\<open>await fetch(...)\<close>: the part before it runs when the
  function is called and leaves a pending request; the part after it (\<open>_resume\<close>) runs when
  the promise settles. \<open>m\<close> and \<open>d\<close> are the \<^verbatim>\<open>model\<close> and \<^verbatim>\<open>dataset\<close> the function closed over.
\<close>

definition post :: "AnalysisKind \<Rightarrow> string list \<Rightarrow> string option \<Rightarrow> string \<Rightarrow> 'j panel \<Rightarrow> 'j panel" where
  "post k filenames m d s =
     s\<lparr>isLoadingAnalysis := True, analysisError := None,
       inflight := inflight s @
         [\<lparr>promise = nextPromise s, r_kind = k, r_filenames = filenames, r_model = m,
           r_dataset = (if d \<noteq> [] then Some d else None)\<rparr>],
       nextPromise := nextPromise s + 1\<rparr>"

definition fetchFrequencyAnalysis :: "string \<Rightarrow> string \<Rightarrow> string list \<Rightarrow> 'j panel \<Rightarrow> 'j panel" where
  "fetchFrequencyAnalysis m d filenames s =
     (if filenames = [] then s else post audio_features filenames (Some m) d s)"

definition fetchBatchPredictions :: "string \<Rightarrow> string \<Rightarrow> string list \<Rightarrow> 'j panel \<Rightarrow> 'j panel" where
  "fetchBatchPredictions m d filenames s =
     (if filenames = [] then s else post predictions filenames None d s)"

definition fetchWhisperAnalysis :: "string \<Rightarrow> string \<Rightarrow> string list \<Rightarrow> 'j panel \<Rightarrow> 'j panel" where
  "fetchWhisperAnalysis m d filenames s =
     (if filenames = [] then s else post common_terms filenames (Some m) d s)"

text \<open>
  The body of the \<^verbatim>\<open>try\<close> block after the \<^verbatim>\<open>await\<close>: the parsed JSON, or the value thrown.
  \<open>what\<close> is the text of the message before the status.
\<close>

definition try_body :: "string \<Rightarrow> 'j outcome \<Rightarrow> js_exn + 'j" where
  "try_body what out =
     (case out of
        Rejected e \<Rightarrow> Inl e
      | Resolved r \<Rightarrow>
          if \<not> ok r then
            (case res_text r of
               Inl e \<Rightarrow> Inl e
             | Inr errorText \<Rightarrow>
                 Inl (Error (what @ string_of_nat (status r) @ '' - '' @ errorText)))
          else res_json r)"

text \<open>
  The \<^verbatim>\<open>try\<close> block throws: the fetch promise rejects, the status is not a success status,
  or \<^verbatim>\<open>response.json()\<close> rejects.
\<close>

definition failed :: "'j outcome \<Rightarrow> bool" where
  "failed out =
     (case out of
        Rejected e \<Rightarrow> True
      | Resolved r \<Rightarrow> \<not> ok r \<or> isl (res_json r))"

definition fetchFrequencyAnalysis_resume :: "'j outcome \<Rightarrow> 'j panel \<Rightarrow> 'j panel" where
  "fetchFrequencyAnalysis_resume out s =
     (case try_body ''Failed to fetch audio frequency analysis: '' out of
        Inr analysis \<Rightarrow>
          s\<lparr>audioFrequencyAnalysis := Some analysis, batchPrediction := None,
            whisperAnalysis := None, isLoadingAnalysis := False\<rparr>
      | Inl e \<Rightarrow>
          s\<lparr>analysisError := Some (error_message e), audioFrequencyAnalysis := None,
            isLoadingAnalysis := False\<rparr>)"

definition fetchBatchPredictions_resume :: "'j outcome \<Rightarrow> 'j panel \<Rightarrow> 'j panel" where
  "fetchBatchPredictions_resume out s =
     (case try_body ''Failed to fetch batch predictions: '' out of
        Inr prediction \<Rightarrow>
          s\<lparr>batchPrediction := Some prediction, audioFrequencyAnalysis := None,
            whisperAnalysis := None, isLoadingAnalysis := False\<rparr>
      | Inl e \<Rightarrow>
          s\<lparr>analysisError := Some (error_message e), batchPrediction := None,
            isLoadingAnalysis := False\<rparr>)"

definition fetchWhisperAnalysis_resume :: "'j outcome \<Rightarrow> 'j panel \<Rightarrow> 'j panel" where
  "fetchWhisperAnalysis_resume out s =
     (case try_body ''Failed to fetch whisper analysis: '' out of
        Inr analysis \<Rightarrow>
          s\<lparr>whisperAnalysis := Some analysis, audioFrequencyAnalysis := None,
            batchPrediction := None, isLoadingAnalysis := False\<rparr>
      | Inl e \<Rightarrow>
          s\<lparr>analysisError := Some (error_message e), whisperAnalysis := None,
            isLoadingAnalysis := False\<rparr>)"

text \<open>\<^verbatim>\<open>fetchAnalysis\<close> of a render whose \<^verbatim>\<open>analysisType\<close>, \<^verbatim>\<open>model\<close> and \<^verbatim>\<open>dataset\<close> are \<open>k\<close>, \<open>m\<close>, \<open>d\<close>.\<close>

fun fetchAnalysis ::
  "AnalysisKind \<Rightarrow> string \<Rightarrow> string \<Rightarrow> string list \<Rightarrow> 'j panel \<Rightarrow> 'j panel" where
  "fetchAnalysis predictions m d filenames s = fetchBatchPredictions m d filenames s"
| "fetchAnalysis common_terms m d filenames s = fetchWhisperAnalysis m d filenames s"
| "fetchAnalysis audio_features m d filenames s = fetchFrequencyAnalysis m d filenames s"

text \<open>The continuation that waits on a pending request.\<close>

fun resume :: "AnalysisKind \<Rightarrow> 'j outcome \<Rightarrow> 'j panel \<Rightarrow> 'j panel" where
  "resume predictions out s = fetchBatchPredictions_resume out s"
| "resume common_terms out s = fetchWhisperAnalysis_resume out s"
| "resume audio_features out s = fetchFrequencyAnalysis_resume out s"

text \<open>
  A promise settles: the request leaves the pending list and its continuation runs. A
  promise that is not pending cannot settle.
\<close>

definition settle :: "nat \<Rightarrow> 'j outcome \<Rightarrow> 'j panel \<Rightarrow> 'j panel" where
  "settle p out s =
     (case find (\<lambda>r. promise r = p) (inflight s) of
        None \<Rightarrow> s
      | Some r \<Rightarrow> resume (r_kind r) out (s\<lparr>inflight := remove1 r (inflight s)\<rparr>))"

subsection \<open>Timers\<close>

definition clearTimeout :: "nat \<Rightarrow> 'j panel \<Rightarrow> 'j panel" where
  "clearTimeout h s = s\<lparr>timers := filter (\<lambda>t. handle t \<noteq> h) (timers s)\<rparr>"

text \<open>
  \<^verbatim>\<open>debounceRef.current = setTimeout(() => { ... }, 300)\<close> in a render whose state is \<open>s\<close>,
  with \<^verbatim>\<open>selectedFiles\<close> being \<open>fs\<close>.
\<close>

definition schedule :: "string list \<Rightarrow> 'j panel \<Rightarrow> 'j panel" where
  "schedule fs s =
     s\<lparr>debounceRef := Some (nextHandle s),
       timers := timers s @
         [\<lparr>handle = nextHandle s, due = now s + 300, t_files = fs,
           t_analysisType = analysisType s, t_model = model s, t_dataset = dataset s\<rparr>],
       nextHandle := nextHandle s + 1\<rparr>"

text \<open>The callback of a timer.\<close>

definition fire :: "timer \<Rightarrow> 'j panel \<Rightarrow> 'j panel" where
  "fire t s =
     (if t_files t \<noteq> []
      then fetchAnalysis (t_analysisType t) (t_model t) (t_dataset t) (t_files t) s
      else clearAnalysisResults s)"

text \<open>The pending timer that runs next when the clock reaches \<open>t\<close>: the earliest one due.\<close>

definition next_due :: "nat \<Rightarrow> timer list \<Rightarrow> timer option" where
  "next_due t tms =
     (let ds = filter (\<lambda>tm. due tm \<le> t) tms in
      if ds = [] then None else Some (arg_min_list due ds))"

text \<open>Run the callbacks of all timers due up to time \<open>t\<close>, earliest first.\<close>

function run_timers :: "nat \<Rightarrow> 'j panel \<Rightarrow> 'j panel" where
  "run_timers t s =
     (case next_due t (timers s) of
        None \<Rightarrow> s
      | Some tm \<Rightarrow>
          run_timers t
            (fire tm (s\<lparr>timers := remove1 tm (timers s), now := max (now s) (due tm)\<rparr>)))"
  by pat_completeness auto
termination
proof (relation "measure (\<lambda>(t, s). length (timers s))")
  show "wf (measure (\<lambda>(t, s::'j panel). length (timers s)))" by simp
next
  fix t :: nat and s :: "'j panel" and tm
  assume a: "next_due t (timers s) = Some tm"
  let ?ds = "filter (\<lambda>tm. due tm \<le> t) (timers s)"
  from a have ne: "?ds \<noteq> []" and tm: "tm = arg_min_list due ?ds"
    by (auto simp: next_due_def Let_def split: if_splits)
  from ne have "arg_min_list due ?ds \<in> set ?ds" by (rule arg_min_list_in)
  with tm have mem: "tm \<in> set (timers s)" by simp
  then have shorter: "length (remove1 tm (timers s)) < length (timers s)"
    by (simp add: length_remove1) (cases "timers s", auto)
  let ?s1 = "s\<lparr>timers := remove1 tm (timers s), now := max (now s) (due tm)\<rparr>"
  have "timers (fire tm ?s1) = timers ?s1"
    by (cases "t_analysisType tm")
       (simp_all add: fire_def clearAnalysisResults_def fetchBatchPredictions_def
          fetchWhisperAnalysis_def fetchFrequencyAnalysis_def post_def)
  with shorter show "((t, fire tm ?s1), (t, s)) \<in> measure (\<lambda>(t, s). length (timers s))"
    by simp
qed

declare run_timers.simps [simp del]

text \<open>Time passes: \<open>d\<close> units elapse and the timers that become due run.\<close>

definition advance :: "nat \<Rightarrow> 'j panel \<Rightarrow> 'j panel" where
  "advance d s = (run_timers (now s + d) s)\<lparr>now := now s + d\<rparr>"

subsection \<open>Selection handlers\<close>

text \<open>
  \<^verbatim>\<open>xs.sort().join(',')\<close>. \<^verbatim>\<open>sort()\<close> sorts the array in place: after the comparison both the
  stored array and the argument are sorted, and the array stored by \<^verbatim>\<open>setSelectedByAngle\<close> is
  the sorted argument.
\<close>

definition selection_key :: "string list \<Rightarrow> string" where
  "selection_key xs = join (sort xs) '',''"

definition cancel_debounce :: "'j panel \<Rightarrow> 'j panel" where
  "cancel_debounce s = (case debounceRef s of None \<Rightarrow> s | Some h \<Rightarrow> clearTimeout h s)"

definition handleAngleRangeSelect :: "string list \<Rightarrow> 'j panel \<Rightarrow> 'j panel" where
  "handleAngleRangeSelect selectedFiles s =
     (let currentSelection = selection_key (selectedByAngle s);
          newSelection = selection_key selectedFiles in
      if currentSelection \<noteq> newSelection
      then schedule (sort selectedFiles)
             (cancel_debounce (s\<lparr>selectedByAngle := sort selectedFiles\<rparr>))
      else s\<lparr>selectedByAngle := sort (selectedByAngle s)\<rparr>)"

definition handle2DSelectionChange :: "string list \<Rightarrow> 'j panel \<Rightarrow> 'j panel" where
  "handle2DSelectionChange selectedFiles s =
     (let currentSelection = selection_key (selectedPoints2D s);
          newSelection = selection_key selectedFiles in
      if currentSelection \<noteq> newSelection
      then schedule (sort selectedFiles)
             (cancel_debounce (s\<lparr>selectedPoints2D := sort selectedFiles\<rparr>))
      else s\<lparr>selectedPoints2D := sort (selectedPoints2D s)\<rparr>)"

text \<open>The \<^verbatim>\<open>onValueChange\<close> of the analysis type select.\<close>

definition handleAnalysisTypeChange :: "AnalysisKind \<Rightarrow> 'j panel \<Rightarrow> 'j panel" where
  "handleAnalysisTypeChange v s =
     (clearAnalysisResults (s\<lparr>analysisType := v\<rparr>))
       \<lparr>selectedByAngle := [], selectedPoints2D := []\<rparr>"

subsection \<open>The panel as a state machine\<close>

text \<open>
  The state after the first render with the given props, and after the effects of the
  mount (\<^verbatim>\<open>'audio-features'\<close> is legal for every model, so only the embedding effect acts).
\<close>

definition mount :: "string \<Rightarrow> string \<Rightarrow> string list \<Rightarrow> 'j panel" where
  "mount m d fs =
     embedding_effect (model_effect
       \<lparr>model = m, dataset = d, availableFiles = fs, embeddingData = None,
        reductionMethod = ''pca'', is3D = False, analysisType = audio_features,
        selectedByAngle = [], selectedPoints2D = [],
        audioFrequencyAnalysis = None, batchPrediction = None, whisperAnalysis = None,
        isLoadingAnalysis = False, analysisError = None, debounceRef = None,
        now = 0, nextHandle = 1, timers = [], nextPromise = 0, inflight = [],
        embeddingRequests = []\<rparr>)"

datatype 'j event =
    AngleRangeSelect "string list"
  | SelectionChange2D "string list"
  | AnalysisTypeChange AnalysisKind
  | ReductionMethodChange string
  | Toggle3D bool
  | Refresh
  | Props string string "string list"
  | EmbeddingData "'j option"
  | Elapse nat
  | Settle nat "'j outcome"

fun step :: "'j event \<Rightarrow> 'j panel \<Rightarrow> 'j panel" where
  "step (AngleRangeSelect fs) s = handleAngleRangeSelect fs s"
| "step (SelectionChange2D fs) s = handle2DSelectionChange fs s"
| "step (AnalysisTypeChange v) s = handleAnalysisTypeChange v s"
| "step (ReductionMethodChange m) s = handleReductionMethodChange m s"
| "step (Toggle3D c) s = handle3DToggle c s"
| "step Refresh s = handleFetchEmbeddings s"
| "step (Props m d fs) s = rerender m d fs s"
| "step (EmbeddingData e) s = s\<lparr>embeddingData := e\<rparr>"
| "step (Elapse d) s = advance d s"
| "step (Settle p out) s = settle p out s"

fun run :: "'j event list \<Rightarrow> 'j panel \<Rightarrow> 'j panel" where
  "run [] s = s"
| "run (e # es) s = run es (step e s)"

subsection \<open>The result slots\<close>

text \<open>The three result slots, and how many of them hold a result.\<close>

definition slots :: "'j panel \<Rightarrow> 'j option list" where
  "slots s = [audioFrequencyAnalysis s, batchPrediction s, whisperAnalysis s]"

definition occupied :: "'j option list \<Rightarrow> nat" where
  "occupied xs = length (filter (\<lambda>x. x \<noteq> None) xs)"

definition nonempty_slots :: "'j panel \<Rightarrow> nat" where
  "nonempty_slots s = occupied (slots s)"

subsection \<open>Predicates and abbreviations used in the statements\<close>

text \<open>Every pending timer is the one whose handle \<^verbatim>\<open>debounceRef.current\<close> holds.\<close>

definition debounce_only :: "'j panel \<Rightarrow> bool" where
  "debounce_only s = list_all (\<lambda>tm. debounceRef s = Some (handle tm)) (timers s)"

text \<open>Every pending promise was created before the next one to be created.\<close>

definition promises_fresh :: "'j panel \<Rightarrow> bool" where
  "promises_fresh s = list_all (\<lambda>r. promise r < nextPromise s) (inflight s)"

text \<open>The slots when the call serving kind \<open>k\<close> has just stored \<open>v\<close>.\<close>

definition own_slot :: "AnalysisKind \<Rightarrow> 'j \<Rightarrow> 'j option list" where
  "own_slot k v =
     (case k of
        audio_features \<Rightarrow> [Some v, None, None]
      | predictions \<Rightarrow> [None, Some v, None]
      | common_terms \<Rightarrow> [None, None, Some v])"

text \<open>
  A burst of angle-range selections: each selection \<open>fs\<close> is followed by \<open>d\<close> units of time.
  \<open>changes k fss\<close> says that every selection of \<open>fss\<close> is non-empty and is detected as a
  change by the handler: its key differs from the key of the selection stored before it,
  \<open>k\<close> being the key of the selection stored at the start.
\<close>

fun burst :: "(string list \<times> nat) list \<Rightarrow> 'j event list" where
  "burst [] = []"
| "burst ((fs, d) # es) = AngleRangeSelect fs # Elapse d # burst es"

fun changes :: "string \<Rightarrow> string list list \<Rightarrow> bool" where
  "changes k [] = True"
| "changes k (f # fs) = (f \<noteq> [] \<and> selection_key f \<noteq> k \<and> changes (selection_key f) fs)"

section \<open>Properties\<close>

subsection \<open>Library functions\<close>

lemma includes_str_sublist: "includes_str s sub \<longleftrightarrow> sublist sub s"
  by (induction s) (auto simp: sublist_Cons_right)

subsection \<open>Timers\<close>

lemma next_due_mem: "next_due t tms = Some tm \<Longrightarrow> tm \<in> set tms"
proof -
  assume a: "next_due t tms = Some tm"
  let ?ds = "filter (\<lambda>tm. due tm \<le> t) tms"
  from a have ne: "?ds \<noteq> []" and tm: "tm = arg_min_list due ?ds"
    by (auto simp: next_due_def Let_def split: if_splits)
  from ne have "arg_min_list due ?ds \<in> set ?ds" by (rule arg_min_list_in)
  with tm show ?thesis by simp
qed

lemma timers_post [simp]: "timers (post k fs m d s) = timers s"
  by (simp add: post_def)

lemma timers_fire [simp]: "timers (fire tm s) = timers s"
  by (cases "t_analysisType tm")
     (simp_all add: fire_def clearAnalysisResults_def fetchBatchPredictions_def
        fetchWhisperAnalysis_def fetchFrequencyAnalysis_def)

subsection \<open>At most one result slot is occupied\<close>

lemma slots_clear [simp]: "slots (clearAnalysisResults s) = [None, None, None]"
  by (simp add: slots_def clearAnalysisResults_def)

lemma occupied_empty [simp]: "occupied [None, None, None] = 0"
  by (simp add: occupied_def)

lemma slots_post [simp]: "slots (post k fs m d s) = slots s"
  by (simp add: slots_def post_def)

lemma slots_fetchAnalysis [simp]: "slots (fetchAnalysis k m d fs s) = slots s"
  by (cases k) (simp_all add: fetchBatchPredictions_def fetchWhisperAnalysis_def fetchFrequencyAnalysis_def)

lemma slots_schedule [simp]: "slots (schedule fs s) = slots s"
  by (simp add: slots_def schedule_def)

lemma slots_cancel_debounce [simp]: "slots (cancel_debounce s) = slots s"
  by (simp add: slots_def cancel_debounce_def clearTimeout_def split: option.splits)

lemma slots_handleAngleRangeSelect [simp]: "slots (handleAngleRangeSelect fs s) = slots s"
  by (simp add: handleAngleRangeSelect_def Let_def) (simp add: slots_def)

lemma slots_handle2DSelectionChange [simp]: "slots (handle2DSelectionChange fs s) = slots s"
  by (simp add: handle2DSelectionChange_def Let_def) (simp add: slots_def)

lemma slots_fetchEmbeddings [simp]: "slots (fetchEmbeddings m d fs me n s) = slots s"
  by (simp add: slots_def fetchEmbeddings_def)

lemma slots_embedding_effect [simp]: "slots (embedding_effect s) = slots s"
  by (simp add: embedding_effect_def)

lemma nonempty_clear [simp]: "nonempty_slots (clearAnalysisResults s) = 0"
  by (simp add: nonempty_slots_def)

lemma nonempty_fire: "nonempty_slots (fire tm s) \<le> nonempty_slots s"
  by (simp add: fire_def nonempty_slots_def)

lemma nonempty_run_timers: "nonempty_slots (run_timers t s) \<le> nonempty_slots s"
proof (induction t s rule: run_timers.induct)
  case (1 t s)
  show ?case
  proof (cases "next_due t (timers s)")
    case None
    then show ?thesis by (simp add: run_timers.simps)
  next
    case (Some tm)
    let ?s1 = "s\<lparr>timers := remove1 tm (timers s), now := max (now s) (due tm)\<rparr>"
    have "nonempty_slots (run_timers t (fire tm ?s1)) \<le> nonempty_slots (fire tm ?s1)"
      using "1.IH" [OF Some] .
    also have "\<dots> \<le> nonempty_slots ?s1" by (rule nonempty_fire)
    also have "\<dots> = nonempty_slots s" by (simp add: nonempty_slots_def slots_def)
    finally show ?thesis using Some by (simp add: run_timers.simps)
  qed
qed

lemma nonempty_advance: "nonempty_slots (advance d s) \<le> nonempty_slots s"
proof -
  have "nonempty_slots (advance d s) = nonempty_slots (run_timers (now s + d) s)"
    by (simp add: advance_def nonempty_slots_def slots_def)
  then show ?thesis using nonempty_run_timers [of "now s + d" s] by simp
qed

lemma nonempty_resume: "nonempty_slots s \<le> 1 \<Longrightarrow> nonempty_slots (resume k out s) \<le> 1"
  by (cases k)
     (auto simp: nonempty_slots_def slots_def occupied_def fetchBatchPredictions_resume_def
        fetchWhisperAnalysis_resume_def fetchFrequencyAnalysis_resume_def
        split: sum.splits if_splits)

lemma nonempty_settle: "nonempty_slots s \<le> 1 \<Longrightarrow> nonempty_slots (settle p out s) \<le> 1"
proof (cases "find (\<lambda>r. promise r = p) (inflight s)")
  case None
  then show "nonempty_slots s \<le> 1 \<Longrightarrow> ?thesis" by (simp add: settle_def)
next
  case (Some r)
  assume "nonempty_slots s \<le> 1"
  then have "nonempty_slots (s\<lparr>inflight := remove1 r (inflight s)\<rparr>) \<le> 1"
    by (simp add: nonempty_slots_def slots_def)
  then have "nonempty_slots (resume (r_kind r) out (s\<lparr>inflight := remove1 r (inflight s)\<rparr>)) \<le> 1"
    by (rule nonempty_resume)
  then show ?thesis using Some by (simp add: settle_def)
qed

lemma nonempty_model_effect: "nonempty_slots (model_effect s) \<le> nonempty_slots s"
  by (simp add: model_effect_def Let_def)

lemma nonempty_rerender: "nonempty_slots (rerender m d fs s) \<le> nonempty_slots s"
proof -
  let ?s1 = "s\<lparr>model := m, dataset := d, availableFiles := fs\<rparr>"
  have a: "slots ?s1 = slots s" by (simp add: slots_def)
  have b: "nonempty_slots (model_effect ?s1) \<le> nonempty_slots s"
    using nonempty_model_effect [of ?s1] a by (simp add: nonempty_slots_def)
  show ?thesis
    unfolding rerender_def Let_def using a b
    by (simp add: nonempty_slots_def) (auto simp: slots_def)
qed

lemma nonempty_step: "nonempty_slots s \<le> 1 \<Longrightarrow> nonempty_slots (step e s) \<le> 1"
proof (cases e)
  case (Elapse d)
  assume "nonempty_slots s \<le> 1"
  then show ?thesis using Elapse nonempty_advance [of d s] by simp
next
  case (Settle p out)
  assume "nonempty_slots s \<le> 1"
  then have "nonempty_slots (settle p out s) \<le> 1" by (rule nonempty_settle)
  then show ?thesis using Settle by simp
next
  case (Props m d fs)
  assume "nonempty_slots s \<le> 1"
  then show ?thesis using Props nonempty_rerender [of m d fs s] by simp
next
  case (AnalysisTypeChange v)
  then show ?thesis by (simp add: handleAnalysisTypeChange_def nonempty_slots_def slots_def occupied_def clearAnalysisResults_def)
next
  case (AngleRangeSelect fs)
  assume "nonempty_slots s \<le> 1"
  then show ?thesis using AngleRangeSelect by (simp add: nonempty_slots_def)
next
  case (SelectionChange2D fs)
  assume "nonempty_slots s \<le> 1"
  then show ?thesis using SelectionChange2D by (simp add: nonempty_slots_def)
next
  case (ReductionMethodChange m)
  assume "nonempty_slots s \<le> 1"
  then show ?thesis using ReductionMethodChange
    by (simp add: handleReductionMethodChange_def nonempty_slots_def) (simp add: slots_def)
next
  case (Toggle3D c)
  assume "nonempty_slots s \<le> 1"
  then show ?thesis using Toggle3D
    by (simp add: handle3DToggle_def Let_def nonempty_slots_def) (simp add: slots_def)
next
  case Refresh
  assume "nonempty_slots s \<le> 1"
  then show ?thesis using Refresh by (simp add: handleFetchEmbeddings_def nonempty_slots_def)
next
  case (EmbeddingData e')
  assume "nonempty_slots s \<le> 1"
  then show ?thesis using EmbeddingData by (simp add: nonempty_slots_def slots_def)
qed

lemma nonempty_run: "nonempty_slots s \<le> 1 \<Longrightarrow> nonempty_slots (run es s) \<le> 1"
proof (induction es arbitrary: s)
  case Nil
  then show ?case by simp
next
  case (Cons e es)
  from Cons.prems have "nonempty_slots (step e s) \<le> 1" by (rule nonempty_step)
  then have "nonempty_slots (run es (step e s)) \<le> 1" by (rule Cons.IH)
  then show ?case by simp
qed

lemma nonempty_mount: "nonempty_slots (mount m d fs) = 0"
  by (simp add: mount_def model_effect_def Let_def nonempty_slots_def getAvailableAnalysisTypes_def)
     (simp add: slots_def)

text \<open>
  Claim C2. Starting from the mounted panel, after every sequence of events at most one of
  the three result slots (frequency analysis, prediction analysis, term analysis) is
  occupied. A backend call that succeeds (success status, JSON parsed to \<open>v\<close>) puts \<open>v\<close> in
  its own slot and empties the other two in the same update, and \<^verbatim>\<open>clearAnalysisResults\<close>
  empties all three.
\<close>

theorem at_most_one_result_slot:
  assumes "ok r" and "res_json r = Inr v"
  shows "nonempty_slots (run es (mount m d fs)) \<le> 1
    \<and> slots (fetchFrequencyAnalysis_resume (Resolved r) s) = [Some v, None, None]
    \<and> slots (fetchBatchPredictions_resume (Resolved r) s) = [None, Some v, None]
    \<and> slots (fetchWhisperAnalysis_resume (Resolved r) s) = [None, None, Some v]
    \<and> slots (clearAnalysisResults s) = [None, None, None]"
proof -
  have inv: "nonempty_slots (run es (mount m d fs)) \<le> 1"
    by (rule nonempty_run) (simp add: nonempty_mount)
  from assms have t: "\<And>what. try_body what (Resolved r) = Inr v"
    by (simp add: try_body_def)
  have a: "slots (fetchFrequencyAnalysis_resume (Resolved r) s) = [Some v, None, None]"
    by (simp add: fetchFrequencyAnalysis_resume_def t slots_def)
  have b: "slots (fetchBatchPredictions_resume (Resolved r) s) = [None, Some v, None]"
    by (simp add: fetchBatchPredictions_resume_def t slots_def)
  have c: "slots (fetchWhisperAnalysis_resume (Resolved r) s) = [None, None, Some v]"
    by (simp add: fetchWhisperAnalysis_resume_def t slots_def)
  from inv a b c show ?thesis by simp
qed

text \<open>
  The hypotheses hold for a response with status 200 whose body parses to \<open>7\<close>; the trace
  selects two files, lets the quiet period pass and receives that response.
\<close>

theorem at_most_one_result_slot_witness:
  "ok (Response 200 (Inr '''') (Inr (7::nat)))
   \<and> res_json (Response 200 (Inr '''') (Inr (7::nat))) = Inr 7
   \<and> nonempty_slots
        (run [AngleRangeSelect [''b.wav'', ''a.wav''], Elapse 300,
              Settle 0 (Resolved (Response 200 (Inr '''') (Inr (7::nat))))]
           (mount ''whisper-base'' ''common-voice'' [''a.wav'', ''b.wav''])) \<le> 1
   \<and> slots (fetchFrequencyAnalysis_resume (Resolved (Response 200 (Inr '''') (Inr (7::nat))))
        (mount ''whisper-base'' ''common-voice'' [''a.wav'', ''b.wav'']))
       = [Some 7, None, None]"
  using at_most_one_result_slot [of "Response 200 (Inr '''') (Inr (7::nat))" 7
          "[AngleRangeSelect [''b.wav'', ''a.wav''], Elapse 300,
              Settle 0 (Resolved (Response 200 (Inr '''') (Inr (7::nat))))]"
          "''whisper-base''" "''common-voice''" "[''a.wav'', ''b.wav'']"
          "mount ''whisper-base'' ''common-voice'' [''a.wav'', ''b.wav'']"]
  by (simp add: ok_def)

subsection \<open>Analysis kinds of a model\<close>

lemma legal_nonempty: "getAvailableAnalysisTypes m \<noteq> []"
  by (simp add: getAvailableAnalysisTypes_def)

text \<open>
  Claim C6, as amended. For every model string the list of legal kinds is not empty and
  follows the rule: the model whose name is exactly \<^verbatim>\<open>wav2vec2\<close> gives predictions and audio
  features, a model whose name contains \<^verbatim>\<open>whisper\<close> gives common terms and audio features, any
  other model (other members of the wav2vec2 family among them) gives audio features only.
  The first element is the default. After a render in which the model changed, the active
  kind is a legal kind of the new model: it is kept, with the result slots, when it is legal
  for the new model, and otherwise it is the default of the new model and the three result
  slots are empty.
\<close>

theorem legal_kinds_after_model_change:
  assumes "m \<noteq> model s"
  shows "getAvailableAnalysisTypes m \<noteq> []
    \<and> getAvailableAnalysisTypes m =
        (if m = ''wav2vec2'' then [predictions, audio_features]
         else if sublist ''whisper'' m then [common_terms, audio_features]
         else [audio_features])
    \<and> analysisType (rerender m d fs s) \<in> set (getAvailableAnalysisTypes m)
    \<and> analysisType (rerender m d fs s) =
        (if analysisType s \<in> set (getAvailableAnalysisTypes m) then analysisType s
         else hd (getAvailableAnalysisTypes m))
    \<and> slots (rerender m d fs s) =
        (if analysisType s \<in> set (getAvailableAnalysisTypes m) then slots s
         else [None, None, None])"
proof -
  let ?s1 = "s\<lparr>model := m, dataset := d, availableFiles := fs\<rparr>"
  have r: "rerender m d fs s = embedding_effect (model_effect ?s1)"
    using assms by (simp add: rerender_def Let_def)
  have k: "analysisType (embedding_effect x) = analysisType x" for x :: "'a panel"
    by (simp add: embedding_effect_def fetchEmbeddings_def)
  have rule: "getAvailableAnalysisTypes m =
        (if m = ''wav2vec2'' then [predictions, audio_features]
         else if sublist ''whisper'' m then [common_terms, audio_features]
         else [audio_features])"
    by (simp add: getAvailableAnalysisTypes_def includes_str_sublist)
  have ne: "getAvailableAnalysisTypes m \<noteq> []" by (rule legal_nonempty)
  then have hd_in: "hd (getAvailableAnalysisTypes m) \<in> set (getAvailableAnalysisTypes m)"
    by simp
  have nth0: "getAvailableAnalysisTypes m ! 0 = hd (getAvailableAnalysisTypes m)"
    using ne by (simp add: hd_conv_nth)
  have ty: "analysisType (model_effect ?s1) =
        (if analysisType s \<in> set (getAvailableAnalysisTypes m) then analysisType s
         else hd (getAvailableAnalysisTypes m))"
    by (simp add: model_effect_def Let_def clearAnalysisResults_def nth0)
  have sl: "slots (model_effect ?s1) =
        (if analysisType s \<in> set (getAvailableAnalysisTypes m) then slots s
         else [None, None, None])"
    by (simp add: model_effect_def Let_def) (simp add: slots_def)
  from ty hd_in have mem: "analysisType (model_effect ?s1) \<in> set (getAvailableAnalysisTypes m)"
    by simp
  show ?thesis using ne rule mem ty sl by (simp only: r k slots_embedding_effect) simp
qed

text \<open>
  The scenario of the specification: the model \<^verbatim>\<open>wav2vec2\<close> with predictions shown is replaced
  by \<^verbatim>\<open>whisper-base\<close>; the kind becomes common terms and the slots are emptied.
\<close>

theorem legal_kinds_after_model_change_witness:
  "''whisper-base'' \<noteq>
     model ((mount ''wav2vec2'' ''common-voice'' [''a.wav''])
              \<lparr>analysisType := predictions, batchPrediction := Some (1::nat)\<rparr>)
   \<and> getAvailableAnalysisTypes ''wav2vec2'' = [predictions, audio_features]
   \<and> getAvailableAnalysisTypes ''whisper-base'' = [common_terms, audio_features]
   \<and> analysisType (rerender ''whisper-base'' ''common-voice'' [''a.wav'']
        ((mount ''wav2vec2'' ''common-voice'' [''a.wav''])
              \<lparr>analysisType := predictions, batchPrediction := Some (1::nat)\<rparr>)) = common_terms
   \<and> slots (rerender ''whisper-base'' ''common-voice'' [''a.wav'']
        ((mount ''wav2vec2'' ''common-voice'' [''a.wav''])
              \<lparr>analysisType := predictions, batchPrediction := Some (1::nat)\<rparr>))
       = [None, None, None]"
proof -
  let ?s = "(mount ''wav2vec2'' ''common-voice'' [''a.wav''])
              \<lparr>analysisType := predictions, batchPrediction := Some (1::nat)\<rparr>"
  have h: "''whisper-base'' \<noteq> model ?s"
    by (simp add: mount_def model_effect_def embedding_effect_def fetchEmbeddings_def
          getAvailableAnalysisTypes_def Let_def)
  have a: "analysisType ?s = predictions" by simp
  have w: "getAvailableAnalysisTypes ''whisper-base'' = [common_terms, audio_features]"
    by (simp add: getAvailableAnalysisTypes_def)
  have v: "getAvailableAnalysisTypes ''wav2vec2'' = [predictions, audio_features]"
    by (simp add: getAvailableAnalysisTypes_def)
  show ?thesis
    using legal_kinds_after_model_change [OF h, of "''common-voice''" "[''a.wav'']"] h
    by (simp only: a w v) simp
qed

text \<open>
  The claim as stated gives predictions and audio features to every model of the wav2vec2
  family. The code tests \<^verbatim>\<open>model === 'wav2vec2'\<close>: the model \<^verbatim>\<open>wav2vec2-large-960h\<close>, whose name
  contains \<^verbatim>\<open>wav2vec2\<close>, gets audio features only, and predictions is not a legal kind for it.
\<close>

theorem wav2vec2_family_exact_match_counterexample:
  "includes_str ''wav2vec2-large-960h'' ''wav2vec2''
   \<and> getAvailableAnalysisTypes ''wav2vec2-large-960h'' = [audio_features]
   \<and> predictions \<notin> set (getAvailableAnalysisTypes ''wav2vec2-large-960h'')"
  by (simp add: getAvailableAnalysisTypes_def)

subsection \<open>A failed backend call\<close>

lemma failed_try_body: "failed out \<longleftrightarrow> isl (try_body what out)"
  by (cases out) (auto simp: failed_def try_body_def split: sum.splits)

text \<open>
  Claim C9. When a backend call fails, each of the three continuations changes only the
  error message, the loading flag and its own result slot; the angle-range selection and
  the planar selection are what they were.
\<close>

theorem failed_fetch_keeps_selection:
  assumes "failed out"
  shows "(\<exists>msg. fetchFrequencyAnalysis_resume out s =
            s\<lparr>analysisError := Some msg, audioFrequencyAnalysis := None,
              isLoadingAnalysis := False\<rparr>)
    \<and> (\<exists>msg. fetchBatchPredictions_resume out s =
            s\<lparr>analysisError := Some msg, batchPrediction := None,
              isLoadingAnalysis := False\<rparr>)
    \<and> (\<exists>msg. fetchWhisperAnalysis_resume out s =
            s\<lparr>analysisError := Some msg, whisperAnalysis := None,
              isLoadingAnalysis := False\<rparr>)
    \<and> selectedByAngle (resume k out s) = selectedByAngle s
    \<and> selectedPoints2D (resume k out s) = selectedPoints2D s"
proof -
  from assms have t: "\<And>what. \<exists>e. try_body what out = Inl e"
    by (cases out) (auto simp: failed_def try_body_def isl_def split: sum.splits)
  have a: "\<exists>msg. fetchFrequencyAnalysis_resume out s =
            s\<lparr>analysisError := Some msg, audioFrequencyAnalysis := None,
              isLoadingAnalysis := False\<rparr>"
    using t [of "''Failed to fetch audio frequency analysis: ''"]
    by (auto simp: fetchFrequencyAnalysis_resume_def)
  have b: "\<exists>msg. fetchBatchPredictions_resume out s =
            s\<lparr>analysisError := Some msg, batchPrediction := None,
              isLoadingAnalysis := False\<rparr>"
    using t [of "''Failed to fetch batch predictions: ''"]
    by (auto simp: fetchBatchPredictions_resume_def)
  have c: "\<exists>msg. fetchWhisperAnalysis_resume out s =
            s\<lparr>analysisError := Some msg, whisperAnalysis := None,
              isLoadingAnalysis := False\<rparr>"
    using t [of "''Failed to fetch whisper analysis: ''"]
    by (auto simp: fetchWhisperAnalysis_resume_def)
  have d: "selectedByAngle (resume k out s) = selectedByAngle s
      \<and> selectedPoints2D (resume k out s) = selectedPoints2D s"
  proof (cases k)
    case predictions
    from b obtain msg where "fetchBatchPredictions_resume out s =
            s\<lparr>analysisError := Some msg, batchPrediction := None, isLoadingAnalysis := False\<rparr>" ..
    with predictions show ?thesis by simp
  next
    case common_terms
    from c obtain msg where "fetchWhisperAnalysis_resume out s =
            s\<lparr>analysisError := Some msg, whisperAnalysis := None, isLoadingAnalysis := False\<rparr>" ..
    with common_terms show ?thesis by simp
  next
    case audio_features
    from a obtain msg where "fetchFrequencyAnalysis_resume out s =
            s\<lparr>analysisError := Some msg, audioFrequencyAnalysis := None, isLoadingAnalysis := False\<rparr>" ..
    with audio_features show ?thesis by simp
  qed
  from a b c d show ?thesis by blast
qed

text \<open>A response with status 500 while \<^verbatim>\<open>x.wav\<close> is selected.\<close>

theorem failed_fetch_keeps_selection_witness:
  "failed (Resolved (Response 500 (Inr ''server error'') (Inl NonError) :: nat response))
   \<and> selectedByAngle
        (resume audio_features (Resolved (Response 500 (Inr ''server error'') (Inl NonError)))
           ((mount ''whisper-base'' ''common-voice'' [''x.wav''] :: nat panel)
              \<lparr>selectedByAngle := [''x.wav'']\<rparr>)) = [''x.wav'']"
  using failed_fetch_keeps_selection
          [of "Resolved (Response 500 (Inr ''server error'') (Inl NonError) :: nat response)"
              "(mount ''whisper-base'' ''common-voice'' [''x.wav''] :: nat panel)
                 \<lparr>selectedByAngle := [''x.wav'']\<rparr>" audio_features]
  by (simp add: failed_def ok_def)

subsection \<open>Selection updates\<close>

lemma sort_cong_mset: "mset B = mset A \<Longrightarrow> sort B = sort (A :: string list)"
  by (metis mset_sort properties_for_sort sorted_sort)

lemma selection_key_sort [simp]: "selection_key (sort xs) = selection_key xs"
  by (simp add: selection_key_def sort_key_id_if_sorted)

lemma selectedByAngle_schedule [simp]: "selectedByAngle (schedule fs s) = selectedByAngle s"
  by (simp add: schedule_def)

lemma selectedByAngle_cancel [simp]: "selectedByAngle (cancel_debounce s) = selectedByAngle s"
  by (simp add: cancel_debounce_def clearTimeout_def split: option.splits)

lemma selectedPoints2D_schedule [simp]: "selectedPoints2D (schedule fs s) = selectedPoints2D s"
  by (simp add: schedule_def)

lemma selectedPoints2D_cancel [simp]: "selectedPoints2D (cancel_debounce s) = selectedPoints2D s"
  by (simp add: cancel_debounce_def clearTimeout_def split: option.splits)

lemma angle_unchanged:
  assumes "sorted (selectedByAngle s)"
    and "selection_key (selectedByAngle s) = selection_key B"
  shows "handleAngleRangeSelect B s = s"
  using assms by (simp add: handleAngleRangeSelect_def Let_def sort_key_id_if_sorted)

lemma angle_after:
  "sorted (selectedByAngle (handleAngleRangeSelect A s))
   \<and> selection_key (selectedByAngle (handleAngleRangeSelect A s)) = selection_key A"
  by (simp add: handleAngleRangeSelect_def Let_def)

lemma planar_unchanged:
  assumes "sorted (selectedPoints2D s)"
    and "selection_key (selectedPoints2D s) = selection_key B"
  shows "handle2DSelectionChange B s = s"
  using assms by (simp add: handle2DSelectionChange_def Let_def sort_key_id_if_sorted)

lemma planar_after:
  "sorted (selectedPoints2D (handle2DSelectionChange A s))
   \<and> selection_key (selectedPoints2D (handle2DSelectionChange A s)) = selection_key A"
  by (simp add: handle2DSelectionChange_def Let_def)

text \<open>
  Claim C5. When an update-selection handler (angle-range or planar) is called twice in a
  row with arguments that hold the same file names in any order, the second call leaves the
  whole state as the first call left it: the stored selections, the result slots, the
  pending timers and \<^verbatim>\<open>debounceRef\<close>, and the pending requests. (The handler sorts its argument
  in place; for a selection that is a set of files the order is not observable.)
\<close>

theorem equal_selection_is_noop:
  assumes "mset B = mset A"
  shows "handleAngleRangeSelect B (handleAngleRangeSelect A s) = handleAngleRangeSelect A s
    \<and> handle2DSelectionChange B (handle2DSelectionChange A s) = handle2DSelectionChange A s"
proof -
  from assms have "sort B = sort A" by (rule sort_cong_mset)
  then have k: "selection_key A = selection_key B" by (simp add: selection_key_def)
  have a: "handleAngleRangeSelect B (handleAngleRangeSelect A s) = handleAngleRangeSelect A s"
    using angle_after [of A s] k by (intro angle_unchanged) simp_all
  have b: "handle2DSelectionChange B (handle2DSelectionChange A s) = handle2DSelectionChange A s"
    using planar_after [of A s] k by (intro planar_unchanged) simp_all
  from a b show ?thesis by simp
qed

text \<open>
  The scenario of the specification: \<^verbatim>\<open>a.wav, b.wav\<close> followed by \<^verbatim>\<open>b.wav, a.wav\<close>; the one timer
  of the first call is still the only one.
\<close>

theorem equal_selection_is_noop_witness:
  "mset [''b.wav'', ''a.wav''] = mset [''a.wav'', ''b.wav'']
   \<and> handleAngleRangeSelect [''b.wav'', ''a.wav'']
        (handleAngleRangeSelect [''a.wav'', ''b.wav'']
           (mount ''whisper-base'' ''common-voice'' [''a.wav'', ''b.wav''] :: nat panel))
       = handleAngleRangeSelect [''a.wav'', ''b.wav'']
           (mount ''whisper-base'' ''common-voice'' [''a.wav'', ''b.wav''])
   \<and> length (timers (handleAngleRangeSelect [''b.wav'', ''a.wav'']
        (handleAngleRangeSelect [''a.wav'', ''b.wav'']
           (mount ''whisper-base'' ''common-voice'' [''a.wav'', ''b.wav''] :: nat panel)))) = 1"
proof -
  have h: "mset [''b.wav'', ''a.wav''] = mset [''a.wav'', ''b.wav'']" by simp
  have t: "length (timers (handleAngleRangeSelect [''a.wav'', ''b.wav'']
           (mount ''whisper-base'' ''common-voice'' [''a.wav'', ''b.wav''] :: nat panel))) = 1"
    by (simp add: mount_def model_effect_def embedding_effect_def fetchEmbeddings_def
        getAvailableAnalysisTypes_def Let_def handleAngleRangeSelect_def selection_key_def
        schedule_def cancel_debounce_def)
  show ?thesis
    using equal_selection_is_noop [OF h,
      of "mount ''whisper-base'' ''common-voice'' [''a.wav'', ''b.wav''] :: nat panel"] h t
    by simp
qed

text \<open>
  Claim C10. The handlers compare \<^verbatim>\<open>sort().join(',')\<close> of the stored and of the new selection.
  The selections \<^verbatim>\<open>["a,b"]\<close> and \<^verbatim>\<open>["a","b"]\<close> are different sets with the same joined text, so
  with \<^verbatim>\<open>["a,b"]\<close> stored an update to \<^verbatim>\<open>["a","b"]\<close> is treated as unchanged by both handlers:
  the stored selection is not replaced and the state, with its timers, is what it was, so no
  fetch is scheduled.
\<close>

theorem comma_join_conflates_selections:
  "set [''a'', ''b''] \<noteq> set [''a,b'']
   \<and> selection_key [''a'', ''b''] = selection_key [''a,b'']
   \<and> handleAngleRangeSelect [''a'', ''b''] (s\<lparr>selectedByAngle := [''a,b'']\<rparr>)
       = s\<lparr>selectedByAngle := [''a,b'']\<rparr>
   \<and> handle2DSelectionChange [''a'', ''b''] (s\<lparr>selectedPoints2D := [''a,b'']\<rparr>)
       = s\<lparr>selectedPoints2D := [''a,b'']\<rparr>"
proof -
  have k: "selection_key [''a'', ''b''] = selection_key [''a,b'']"
    by (simp add: selection_key_def)
  have a: "handleAngleRangeSelect [''a'', ''b''] (s\<lparr>selectedByAngle := [''a,b'']\<rparr>)
       = s\<lparr>selectedByAngle := [''a,b'']\<rparr>"
    by (rule angle_unchanged) (simp_all add: k)
  have b: "handle2DSelectionChange [''a'', ''b''] (s\<lparr>selectedPoints2D := [''a,b'']\<rparr>)
       = s\<lparr>selectedPoints2D := [''a,b'']\<rparr>"
    by (rule planar_unchanged) (simp_all add: k)
  have d: "set [''a'', ''b''] \<noteq> set [''a,b'']" by auto
  from d k a b show ?thesis by blast
qed


subsection \<open>Evaluating traces\<close>

lemmas eval_defs =
  mount_def model_effect_def embedding_effect_def fetchEmbeddings_def
  getAvailableAnalysisTypes_def Let_def handleAngleRangeSelect_def handle2DSelectionChange_def
  selection_key_def schedule_def cancel_debounce_def clearTimeout_def advance_def
  run_timers.simps next_due_def fire_def fetchFrequencyAnalysis_def fetchBatchPredictions_def
  fetchWhisperAnalysis_def post_def settle_def fetchFrequencyAnalysis_resume_def
  fetchBatchPredictions_resume_def fetchWhisperAnalysis_resume_def try_body_def ok_def
  handleAnalysisTypeChange_def clearAnalysisResults_def handle3DToggle_def
  handleReductionMethodChange_def handleFetchEmbeddings_def rerender_def
  string_of_nat.simps slots_def

subsection \<open>A non-success status\<close>

text \<open>
  Claim C7, as amended. When a backend call returns a status that is not a success status
  and the body text \<open>body\<close> can be read, the continuation records the error message
  "Failed to fetch ...: status - body", which contains the status code and the body text,
  empties the slot of the call and clears the loading flag. It leaves the other two slots as
  they were. The \<^verbatim>\<open>catch\<close> block turns every failure into this state: nothing is thrown
  further (the continuation is a total function of the outcome).
\<close>

theorem non_success_status_records_error:
  assumes "\<not> ok r" and "res_text r = Inr body"
  shows "fetchFrequencyAnalysis_resume (Resolved r) s =
           s\<lparr>analysisError := Some (''Failed to fetch audio frequency analysis: ''
                 @ string_of_nat (status r) @ '' - '' @ body),
             audioFrequencyAnalysis := None, isLoadingAnalysis := False\<rparr>
    \<and> fetchBatchPredictions_resume (Resolved r) s =
           s\<lparr>analysisError := Some (''Failed to fetch batch predictions: ''
                 @ string_of_nat (status r) @ '' - '' @ body),
             batchPrediction := None, isLoadingAnalysis := False\<rparr>
    \<and> fetchWhisperAnalysis_resume (Resolved r) s =
           s\<lparr>analysisError := Some (''Failed to fetch whisper analysis: ''
                 @ string_of_nat (status r) @ '' - '' @ body),
             whisperAnalysis := None, isLoadingAnalysis := False\<rparr>
    \<and> (\<exists>msg. analysisError (resume k (Resolved r) s) = Some msg
          \<and> sublist (string_of_nat (status r)) msg \<and> sublist body msg)"
proof -
  from assms have t: "\<And>what. try_body what (Resolved r) =
      Inl (Error (what @ string_of_nat (status r) @ '' - '' @ body))"
    by (simp add: try_body_def)
  have a: "fetchFrequencyAnalysis_resume (Resolved r) s =
           s\<lparr>analysisError := Some (''Failed to fetch audio frequency analysis: ''
                 @ string_of_nat (status r) @ '' - '' @ body),
             audioFrequencyAnalysis := None, isLoadingAnalysis := False\<rparr>"
    by (simp add: fetchFrequencyAnalysis_resume_def t)
  have b: "fetchBatchPredictions_resume (Resolved r) s =
           s\<lparr>analysisError := Some (''Failed to fetch batch predictions: ''
                 @ string_of_nat (status r) @ '' - '' @ body),
             batchPrediction := None, isLoadingAnalysis := False\<rparr>"
    by (simp add: fetchBatchPredictions_resume_def t)
  have c: "fetchWhisperAnalysis_resume (Resolved r) s =
           s\<lparr>analysisError := Some (''Failed to fetch whisper analysis: ''
                 @ string_of_nat (status r) @ '' - '' @ body),
             whisperAnalysis := None, isLoadingAnalysis := False\<rparr>"
    by (simp add: fetchWhisperAnalysis_resume_def t)
  have sub: "sublist (string_of_nat (status r)) (what @ string_of_nat (status r) @ '' - '' @ body)
      \<and> sublist body (what @ string_of_nat (status r) @ '' - '' @ body)" for what
  proof
    show "sublist (string_of_nat (status r)) (what @ string_of_nat (status r) @ '' - '' @ body)"
      unfolding sublist_def by blast
    have "what @ string_of_nat (status r) @ '' - '' @ body
          = (what @ string_of_nat (status r) @ '' - '') @ body @ []" by simp
    then show "sublist body (what @ string_of_nat (status r) @ '' - '' @ body)"
      unfolding sublist_def by blast
  qed
  have d: "\<exists>msg. analysisError (resume k (Resolved r) s) = Some msg
          \<and> sublist (string_of_nat (status r)) msg \<and> sublist body msg"
  proof (cases k)
    case predictions
    then show ?thesis using sub [of "''Failed to fetch batch predictions: ''"] by (simp add: b)
  next
    case common_terms
    then show ?thesis using sub [of "''Failed to fetch whisper analysis: ''"] by (simp add: c)
  next
    case audio_features
    then show ?thesis using sub [of "''Failed to fetch audio frequency analysis: ''"] by (simp add: a)
  qed
  from a b c d show ?thesis by blast
qed

text \<open>
  The scenario of the specification: status 500 with the body \<^verbatim>\<open>server error\<close>.
\<close>

theorem non_success_status_records_error_witness:
  "\<not> ok (Response 500 (Inr ''server error'') (Inl NonError) :: nat response)
   \<and> res_text (Response 500 (Inr ''server error'') (Inl NonError) :: nat response)
       = Inr ''server error''
   \<and> fetchFrequencyAnalysis_resume
        (Resolved (Response 500 (Inr ''server error'') (Inl NonError)))
        (mount ''whisper-base'' ''common-voice'' [''x.wav''] :: nat panel)
      = (mount ''whisper-base'' ''common-voice'' [''x.wav''])
          \<lparr>analysisError := Some ''Failed to fetch audio frequency analysis: 500 - server error'',
            audioFrequencyAnalysis := None, isLoadingAnalysis := False\<rparr>"
proof -
  let ?r = "Response 500 (Inr ''server error'') (Inl NonError) :: nat response"
  have h1: "\<not> ok ?r" by (simp add: ok_def)
  have h2: "res_text ?r = Inr ''server error''" by simp
  have n: "string_of_nat 500 = ''500''" by (simp add: string_of_nat.simps)
  show ?thesis
    using non_success_status_records_error [OF h1 h2,
            of "mount ''whisper-base'' ''common-voice'' [''x.wav''] :: nat panel" audio_features]
      h1 h2
    by (simp add: n)
qed

text \<open>
  The claim as stated says that all three slots are empty afterwards. They are not when
  another slot was occupied: a predictions call is pending, the kind is switched to audio
  features, the predictions response arrives and fills its slot, a new selection dispatches
  an audio-features call and that call fails with status 500. The error is recorded and the
  predictions slot is still occupied.
\<close>

theorem failed_fetch_leaves_other_slot_counterexample:
  "slots (run [AnalysisTypeChange predictions, AngleRangeSelect [''x.wav''], Elapse 300,
         AnalysisTypeChange audio_features,
         Settle 0 (Resolved (Response 200 (Inr '''') (Inr (1::nat)))),
         AngleRangeSelect [''x.wav''], Elapse 300,
         Settle 1 (Resolved (Response 500 (Inr ''server error'') (Inl NonError)))]
        (mount ''wav2vec2'' ''common-voice'' [''x.wav'']))
   = [None, Some 1, None]
   \<and> analysisError (run [AnalysisTypeChange predictions, AngleRangeSelect [''x.wav''], Elapse 300,
         AnalysisTypeChange audio_features,
         Settle 0 (Resolved (Response 200 (Inr '''') (Inr (1::nat)))),
         AngleRangeSelect [''x.wav''], Elapse 300,
         Settle 1 (Resolved (Response 500 (Inr ''server error'') (Inl NonError)))]
        (mount ''wav2vec2'' ''common-voice'' [''x.wav'']))
   = Some ''Failed to fetch audio frequency analysis: 500 - server error''"
  by (simp add: eval_defs)

subsection \<open>The debounce timer\<close>

lemma timers_cancel_debounce:
  assumes "debounce_only s"
  shows "timers (cancel_debounce s) = []"
proof (cases "debounceRef s")
  case None
  with assms have "timers s = []"
    by (cases "timers s") (simp_all add: debounce_only_def)
  with None show ?thesis by (simp add: cancel_debounce_def)
next
  case (Some h)
  with assms have "\<forall>tm \<in> set (timers s). handle tm = h"
    by (auto simp: debounce_only_def list_all_iff)
  then have "filter (\<lambda>t. handle t \<noteq> h) (timers s) = []"
    by (simp add: filter_empty_conv)
  with Some show ?thesis by (simp add: cancel_debounce_def clearTimeout_def)
qed

lemma cancel_debounce_frame:
  "cancel_debounce s = s\<lparr>timers := timers (cancel_debounce s)\<rparr>"
  by (simp add: cancel_debounce_def clearTimeout_def split: option.splits)

lemma reschedule:
  assumes "debounce_only s"
  shows "schedule fs (cancel_debounce s) =
     s\<lparr>debounceRef := Some (nextHandle s),
       timers := [\<lparr>handle = nextHandle s, due = now s + 300, t_files = fs,
                  t_analysisType = analysisType s, t_model = model s, t_dataset = dataset s\<rparr>],
       nextHandle := nextHandle s + 1\<rparr>"
proof -
  have e: "cancel_debounce s = s\<lparr>timers := []\<rparr>"
    using cancel_debounce_frame [of s] timers_cancel_debounce [OF assms] by simp
  show ?thesis by (simp add: e schedule_def)
qed

lemma run_timers_none: "timers s = [] \<Longrightarrow> run_timers t s = s"
  by (subst run_timers.simps) (simp add: next_due_def)

lemma run_timers_early:
  "timers s = [tm] \<Longrightarrow> t < due tm \<Longrightarrow> run_timers t s = s"
  by (subst run_timers.simps) (simp add: next_due_def)

lemma run_timers_due:
  assumes "timers s = [tm]" and "due tm \<le> t"
  shows "run_timers t s = fire tm (s\<lparr>timers := [], now := max (now s) (due tm)\<rparr>)"
proof -
  have n: "next_due t (timers s) = Some tm" using assms by (simp add: next_due_def)
  have "run_timers t s =
      run_timers t (fire tm (s\<lparr>timers := remove1 tm (timers s), now := max (now s) (due tm)\<rparr>))"
    by (subst run_timers.simps) (simp add: n)
  also have "\<dots> = run_timers t (fire tm (s\<lparr>timers := [], now := max (now s) (due tm)\<rparr>))"
    using assms by simp
  also have "\<dots> = fire tm (s\<lparr>timers := [], now := max (now s) (due tm)\<rparr>)"
    by (rule run_timers_none) simp
  finally show ?thesis .
qed

lemma slots_fire_empty: "t_files tm = [] \<Longrightarrow> slots (fire tm s) = [None, None, None]"
  by (simp add: fire_def)

lemma inflight_fire_empty: "t_files tm = [] \<Longrightarrow> inflight (fire tm s) = inflight s"
  by (simp add: fire_def clearAnalysisResults_def)

lemma empty_selection_sched:
  assumes d0: "debounce_only s0"
  defines "s' \<equiv> schedule [] (cancel_debounce s0)"
  shows "slots s' = slots s0 \<and> inflight s' = inflight s0
     \<and> map due (timers s') = [now s0 + 300] \<and> map t_files (timers s') = [[]]
     \<and> slots (advance d s') = (if d < 300 then slots s0 else [None, None, None])
     \<and> inflight (advance d s') = inflight s0"
proof -
  let ?tm = "\<lparr>handle = nextHandle s0, due = now s0 + 300, t_files = [],
              t_analysisType = analysisType s0, t_model = model s0, t_dataset = dataset s0\<rparr>"
  have e: "s' = s0\<lparr>debounceRef := Some (nextHandle s0), timers := [?tm],
                  nextHandle := nextHandle s0 + 1\<rparr>"
    unfolding s'_def by (rule reschedule [OF d0])
  have t: "timers s' = [?tm]" and n: "now s' = now s0" by (simp_all add: e)
  have a: "slots s' = slots s0" by (simp add: e slots_def)
  have b: "inflight s' = inflight s0" by (simp add: e)
  have adv: "slots (advance d s') = (if d < 300 then slots s0 else [None, None, None])
      \<and> inflight (advance d s') = inflight s0"
  proof (cases "d < 300")
    case True
    then have "run_timers (now s' + d) s' = s'"
      using t n by (intro run_timers_early [of s' ?tm]) simp_all
    then show ?thesis using True a b by (simp add: advance_def slots_def)
  next
    case False
    then have "run_timers (now s' + d) s' =
        fire ?tm (s'\<lparr>timers := [], now := max (now s') (due ?tm)\<rparr>)"
      using t n by (intro run_timers_due) simp_all
    moreover have "slots (fire ?tm (s'\<lparr>timers := [], now := max (now s') (due ?tm)\<rparr>))
        = [None, None, None]" by (rule slots_fire_empty) simp
    moreover have "inflight (fire ?tm (s'\<lparr>timers := [], now := max (now s') (due ?tm)\<rparr>))
        = inflight s'" by (simp add: inflight_fire_empty)
    ultimately show ?thesis using False b by (simp add: advance_def slots_def)
  qed
  from a b t adv show ?thesis by simp
qed

text \<open>
  Claim C4, as amended. When a selection update is detected as a change to the empty
  selection, the handler does not clear the result slots and makes no backend call: it
  cancels the pending timer and schedules a new one, due 300 units later, for the empty
  selection. The slots are what they were until that timer runs; when it runs, 300 units
  later, it empties all three slots and makes no backend call.
\<close>

theorem empty_selection_clears_after_quiet_period:
  assumes "debounce_only s"
    and "s' = handleAngleRangeSelect [] s
           \<and> selection_key (selectedByAngle s) \<noteq> selection_key []
         \<or> s' = handle2DSelectionChange [] s
           \<and> selection_key (selectedPoints2D s) \<noteq> selection_key []"
  shows "slots s' = slots s \<and> inflight s' = inflight s
     \<and> map due (timers s') = [now s + 300] \<and> map t_files (timers s') = [[]]
     \<and> slots (advance d s') = (if d < 300 then slots s else [None, None, None])
     \<and> inflight (advance d s') = inflight s"
proof -
  let ?a = "s\<lparr>selectedByAngle := []\<rparr>" and ?p = "s\<lparr>selectedPoints2D := []\<rparr>"
  have da: "debounce_only ?a" and dp: "debounce_only ?p"
    using assms(1) by (simp_all add: debounce_only_def)
  have fa: "slots ?a = slots s \<and> inflight ?a = inflight s \<and> now ?a = now s"
    by (simp add: slots_def)
  have fp: "slots ?p = slots s \<and> inflight ?p = inflight s \<and> now ?p = now s"
    by (simp add: slots_def)
  from assms(2) show ?thesis
  proof (elim disjE conjE)
    assume e: "s' = handleAngleRangeSelect [] s"
      and k: "selection_key (selectedByAngle s) \<noteq> selection_key []"
    from k have ha: "handleAngleRangeSelect [] s = schedule [] (cancel_debounce ?a)"
      by (simp add: handleAngleRangeSelect_def Let_def)
    show ?thesis unfolding e ha using empty_selection_sched [OF da, of d] fa by simp
  next
    assume e: "s' = handle2DSelectionChange [] s"
      and k: "selection_key (selectedPoints2D s) \<noteq> selection_key []"
    from k have hp: "handle2DSelectionChange [] s = schedule [] (cancel_debounce ?p)"
      by (simp add: handle2DSelectionChange_def Let_def)
    show ?thesis unfolding e hp using empty_selection_sched [OF dp, of d] fp by simp
  qed
qed

text \<open>A panel that shows a result for \<^verbatim>\<open>a.wav\<close>, and the selection is then emptied.\<close>

theorem empty_selection_clears_after_quiet_period_witness:
  "debounce_only
     (run [AngleRangeSelect [''a.wav''], Elapse 300,
           Settle 0 (Resolved (Response 200 (Inr '''') (Inr 1)))]
        (mount ''whisper-base'' ''common-voice'' [''a.wav''] :: nat panel))
   \<and> selection_key (selectedByAngle
     (run [AngleRangeSelect [''a.wav''], Elapse 300,
           Settle 0 (Resolved (Response 200 (Inr '''') (Inr 1)))]
        (mount ''whisper-base'' ''common-voice'' [''a.wav''] :: nat panel))) \<noteq> selection_key []
   \<and> slots (handleAngleRangeSelect []
     (run [AngleRangeSelect [''a.wav''], Elapse 300,
           Settle 0 (Resolved (Response 200 (Inr '''') (Inr 1)))]
        (mount ''whisper-base'' ''common-voice'' [''a.wav''] :: nat panel)))
     = [Some 1, None, None]
   \<and> slots (advance 300 (handleAngleRangeSelect []
     (run [AngleRangeSelect [''a.wav''], Elapse 300,
           Settle 0 (Resolved (Response 200 (Inr '''') (Inr 1)))]
        (mount ''whisper-base'' ''common-voice'' [''a.wav''] :: nat panel))))
     = [None, None, None]"
proof -
  let ?s = "run [AngleRangeSelect [''a.wav''], Elapse 300,
           Settle 0 (Resolved (Response 200 (Inr '''') (Inr 1)))]
        (mount ''whisper-base'' ''common-voice'' [''a.wav''] :: nat panel)"
  have h1: "debounce_only ?s" by (simp add: eval_defs debounce_only_def)
  have k: "selection_key (selectedByAngle ?s) \<noteq> selection_key []" by (simp add: eval_defs)
  then have h2: "handleAngleRangeSelect [] ?s = handleAngleRangeSelect [] ?s
           \<and> selection_key (selectedByAngle ?s) \<noteq> selection_key []
         \<or> handleAngleRangeSelect [] ?s = handle2DSelectionChange [] ?s
           \<and> selection_key (selectedPoints2D ?s) \<noteq> selection_key []" by blast
  have sl: "slots ?s = [Some 1, None, None]" by (simp add: eval_defs)
  from empty_selection_clears_after_quiet_period [OF h1 h2, of 300] sl
  have "slots (handleAngleRangeSelect [] ?s) = [Some 1, None, None]
      \<and> slots (advance 300 (handleAngleRangeSelect [] ?s)) = [None, None, None]" by simp
  with h1 k show ?thesis by blast
qed

text \<open>
  The claim as stated says that the slots are cleared at once and that no debounce is
  scheduled. A result for \<^verbatim>\<open>a.wav\<close> is shown (at time 300) and the selection changes to the
  empty selection: the stored selection is empty, the result is still in its slot, and a
  timer is pending, due at time 600.
\<close>

theorem empty_selection_not_immediate_counterexample:
  "selectedByAngle
     (run [AngleRangeSelect [''a.wav''], Elapse 300,
           Settle 0 (Resolved (Response 200 (Inr '''') (Inr 1)))]
        (mount ''whisper-base'' ''common-voice'' [''a.wav''] :: nat panel)) = [''a.wav'']
   \<and> selectedByAngle
     (run [AngleRangeSelect [''a.wav''], Elapse 300,
           Settle 0 (Resolved (Response 200 (Inr '''') (Inr 1))), AngleRangeSelect []]
        (mount ''whisper-base'' ''common-voice'' [''a.wav''] :: nat panel)) = []
   \<and> slots
     (run [AngleRangeSelect [''a.wav''], Elapse 300,
           Settle 0 (Resolved (Response 200 (Inr '''') (Inr 1))), AngleRangeSelect []]
        (mount ''whisper-base'' ''common-voice'' [''a.wav''] :: nat panel))
     = [Some 1, None, None]
   \<and> map due (timers
     (run [AngleRangeSelect [''a.wav''], Elapse 300,
           Settle 0 (Resolved (Response 200 (Inr '''') (Inr 1))), AngleRangeSelect []]
        (mount ''whisper-base'' ''common-voice'' [''a.wav''] :: nat panel))) = [600]"
  by (simp add: eval_defs)

subsection \<open>Responses that arrive late\<close>

lemma slots_resume_ok:
  assumes "ok r" and "res_json r = Inr v"
  shows "slots (resume k (Resolved r) s) = own_slot k v"
proof -
  from assms have t: "\<And>what. try_body what (Resolved r) = Inr v"
    by (simp add: try_body_def)
  show ?thesis
    by (cases k)
       (simp_all add: own_slot_def slots_def t fetchBatchPredictions_resume_def
          fetchWhisperAnalysis_resume_def fetchFrequencyAnalysis_resume_def)
qed

lemma inflight_resume [simp]: "inflight (resume k out s) = inflight s"
  by (cases k)
     (simp_all add: fetchBatchPredictions_resume_def fetchWhisperAnalysis_resume_def
        fetchFrequencyAnalysis_resume_def split: sum.splits)

lemma fetchAnalysis_post:
  assumes "fs \<noteq> []"
  shows "\<exists>mo. fetchAnalysis k m d fs s = post k fs mo d s"
  using assms
  by (cases k)
     (auto simp: fetchBatchPredictions_def fetchWhisperAnalysis_def fetchFrequencyAnalysis_def)

lemma find_app:
  "find P (xs @ ys) = (case find P xs of None \<Rightarrow> find P ys | Some x \<Rightarrow> Some x)"
  by (induction xs) simp_all

lemma model_effect_frame [simp]:
  "availableFiles (model_effect x) = availableFiles x"
  "model (model_effect x) = model x"
  "dataset (model_effect x) = dataset x"
  "reductionMethod (model_effect x) = reductionMethod x"
  "is3D (model_effect x) = is3D x"
  "embeddingRequests (model_effect x) = embeddingRequests x"
  by (simp_all add: model_effect_def Let_def clearAnalysisResults_def)

lemma settle_newest:
  assumes "promises_fresh s"
  shows "settle (nextPromise s) out (post k fs mo d s) =
         resume k out ((post k fs mo d s)\<lparr>inflight := inflight s\<rparr>)"
proof -
  let ?b = "\<lparr>promise = nextPromise s, r_kind = k, r_filenames = fs, r_model = mo,
             r_dataset = (if d \<noteq> [] then Some d else None)\<rparr>"
  have inf: "inflight (post k fs mo d s) = inflight s @ [?b]" by (simp add: post_def)
  from assms have old: "\<forall>r \<in> set (inflight s). promise r \<noteq> nextPromise s"
    by (auto simp: promises_fresh_def list_all_iff)
  then have "find (\<lambda>r. promise r = nextPromise s) (inflight s) = None"
    by (simp add: find_None_iff)
  then have f: "find (\<lambda>r. promise r = nextPromise s) (inflight s @ [?b]) = Some ?b"
    by (simp add: find_app)
  from old have "?b \<notin> set (inflight s)" by auto
  then have r: "remove1 ?b (inflight s @ [?b]) = inflight s"
    by (simp add: remove1_append)
  show ?thesis by (simp add: settle_def inf f r)
qed

text \<open>
  Claim C1, as amended. The code keeps no request sequence number: a response is committed
  when it arrives, whatever was dispatched since. If a request A is pending, a newer request
  B is dispatched and B's response is committed, and then A's response arrives with a
  success status, A's result is stored in the slot of A's kind and the other two slots are
  emptied: the late response replaces what B committed.
\<close>

theorem late_response_is_committed:
  assumes "find (\<lambda>r. promise r = pA) (inflight s) = Some a"
    and "promises_fresh s"
    and "fs \<noteq> []"
    and "ok respA" and "res_json respA = Inr vA"
  shows "slots (settle pA (Resolved respA)
                 (settle (nextPromise s) outB (fetchAnalysis k m d fs s)))
         = own_slot (r_kind a) vA"
proof -
  from assms(3) obtain mo where p: "fetchAnalysis k m d fs s = post k fs mo d s"
    using fetchAnalysis_post by blast
  let ?s1 = "resume k outB ((post k fs mo d s)\<lparr>inflight := inflight s\<rparr>)"
  have s1: "settle (nextPromise s) outB (fetchAnalysis k m d fs s) = ?s1"
    unfolding p by (rule settle_newest [OF assms(2)])
  have "inflight ?s1 = inflight s" by simp
  with assms(1) have "settle pA (Resolved respA) ?s1 =
      resume (r_kind a) (Resolved respA) (?s1\<lparr>inflight := remove1 a (inflight ?s1)\<rparr>)"
    by (simp add: settle_def)
  then show ?thesis
    unfolding s1 using slots_resume_ok [OF assms(4) assms(5)] by simp
qed

text \<open>
  A call for \<^verbatim>\<open>a.wav\<close> is pending; a call for \<^verbatim>\<open>b.wav\<close> is dispatched and answered with \<open>2\<close>;
  then the first call is answered with \<open>1\<close>.
\<close>

theorem late_response_is_committed_witness:
  "find (\<lambda>r. promise r = 0)
     (inflight (run [AngleRangeSelect [''a.wav''], Elapse 300]
        (mount ''whisper-base'' ''common-voice'' [''a.wav'', ''b.wav''] :: nat panel)))
     = Some \<lparr>promise = 0, r_kind = audio_features, r_filenames = [''a.wav''],
             r_model = Some ''whisper-base'', r_dataset = Some ''common-voice''\<rparr>
   \<and> promises_fresh (run [AngleRangeSelect [''a.wav''], Elapse 300]
        (mount ''whisper-base'' ''common-voice'' [''a.wav'', ''b.wav''] :: nat panel))
   \<and> [''b.wav''] \<noteq> []
   \<and> ok (Response 200 (Inr '''') (Inr (1::nat)))
   \<and> slots (settle 0 (Resolved (Response 200 (Inr '''') (Inr 1)))
        (settle 1 (Resolved (Response 200 (Inr '''') (Inr 2)))
           (fetchAnalysis audio_features ''whisper-base'' ''common-voice'' [''b.wav'']
              (run [AngleRangeSelect [''a.wav''], Elapse 300]
                 (mount ''whisper-base'' ''common-voice'' [''a.wav'', ''b.wav''] :: nat panel)))))
     = [Some 1, None, None]"
proof -
  let ?s = "run [AngleRangeSelect [''a.wav''], Elapse 300]
        (mount ''whisper-base'' ''common-voice'' [''a.wav'', ''b.wav''] :: nat panel)"
  let ?a = "\<lparr>promise = 0, r_kind = audio_features, r_filenames = [''a.wav''],
             r_model = Some ''whisper-base'', r_dataset = Some ''common-voice''\<rparr>"
  let ?rA = "Response 200 (Inr '''') (Inr (1::nat))"
  have h1: "find (\<lambda>r. promise r = 0) (inflight ?s) = Some ?a"
    by (simp add: eval_defs)
  have h2: "promises_fresh ?s" by (simp add: eval_defs promises_fresh_def)
  have h3: "[''b.wav''] \<noteq> []" by simp
  have h4: "ok ?rA" by (simp add: ok_def)
  have h5: "res_json ?rA = Inr 1" by simp
  have n: "nextPromise ?s = 1" by (simp add: eval_defs)
  from late_response_is_committed [OF h1 h2 h3 h4 h5,
         of "Resolved (Response 200 (Inr '''') (Inr 2))" audio_features
            "''whisper-base''" "''common-voice''"]
  have "slots (settle 0 (Resolved ?rA)
        (settle 1 (Resolved (Response 200 (Inr '''') (Inr 2)))
           (fetchAnalysis audio_features ''whisper-base'' ''common-voice'' [''b.wav''] ?s)))
     = [Some 1, None, None]"
    by (simp only: n) (simp add: own_slot_def)
  with h1 h2 h3 h4 show ?thesis by simp
qed

text \<open>
  The claim as stated says that the late response of the older call is discarded. On the
  trace below the two calls are dispatched in the order \<^verbatim>\<open>a.wav\<close>, \<^verbatim>\<open>b.wav\<close>; the response of the
  second is committed first, and the response of the first, arriving afterwards, replaces it.
\<close>

theorem late_response_overwrites_counterexample:
  "map r_filenames (inflight
     (run [AngleRangeSelect [''a.wav''], Elapse 300, AngleRangeSelect [''b.wav''], Elapse 300]
        (mount ''whisper-base'' ''common-voice'' [''a.wav'', ''b.wav''] :: nat panel)))
     = [[''a.wav''], [''b.wav'']]
   \<and> slots
     (run [AngleRangeSelect [''a.wav''], Elapse 300, AngleRangeSelect [''b.wav''], Elapse 300,
           Settle 1 (Resolved (Response 200 (Inr '''') (Inr 2)))]
        (mount ''whisper-base'' ''common-voice'' [''a.wav'', ''b.wav''] :: nat panel))
     = [Some 2, None, None]
   \<and> slots
     (run [AngleRangeSelect [''a.wav''], Elapse 300, AngleRangeSelect [''b.wav''], Elapse 300,
           Settle 1 (Resolved (Response 200 (Inr '''') (Inr 2))),
           Settle 0 (Resolved (Response 200 (Inr '''') (Inr 1)))]
        (mount ''whisper-base'' ''common-voice'' [''a.wav'', ''b.wav''] :: nat panel))
     = [Some 1, None, None]"
  by (simp add: eval_defs)

subsection \<open>Embedding requests\<close>

text \<open>
  Claim C8, as amended. A render in which the model, the dataset or the file list changed,
  and a change of the reduction method, call \<^verbatim>\<open>fetchEmbeddings\<close> at once (no timer) for all
  available files, with the current reduction method and 3 or 2 components by \<^verbatim>\<open>is3D\<close>,
  when the file list is not empty and model and dataset are non-empty strings. A change of
  the dimensionality (the 3D switch) calls \<^verbatim>\<open>fetchEmbeddings\<close> with the new number of
  components when embedding data is already present and the file list is not empty, and
  makes no request otherwise.
\<close>

theorem embedding_request_on_change:
  assumes "(m, d, fs) \<noteq> (model s, dataset s, availableFiles s)"
    and "method \<noteq> reductionMethod s"
  shows "embeddingRequests (rerender m d fs s) =
           (if fs \<noteq> [] \<and> m \<noteq> [] \<and> d \<noteq> []
            then embeddingRequests s @
                   [\<lparr>p_model = m, p_dataset = d, p_files = fs, p_method = reductionMethod s,
                     p_nComponents = (if is3D s then 3 else 2)\<rparr>]
            else embeddingRequests s)
    \<and> embeddingRequests (handleReductionMethodChange method s) =
           (if availableFiles s \<noteq> [] \<and> model s \<noteq> [] \<and> dataset s \<noteq> []
            then embeddingRequests s @
                   [\<lparr>p_model = model s, p_dataset = dataset s, p_files = availableFiles s,
                     p_method = method, p_nComponents = (if is3D s then 3 else 2)\<rparr>]
            else embeddingRequests s)
    \<and> embeddingRequests (handle3DToggle checked s) =
           (if embeddingData s \<noteq> None \<and> availableFiles s \<noteq> []
            then embeddingRequests s @
                   [\<lparr>p_model = model s, p_dataset = dataset s, p_files = availableFiles s,
                     p_method = reductionMethod s, p_nComponents = (if checked then 3 else 2)\<rparr>]
            else embeddingRequests s)
    \<and> is3D (handle3DToggle checked s) = checked"
proof -
  let ?s1 = "s\<lparr>model := m, dataset := d, availableFiles := fs\<rparr>"
  have ee: "embeddingRequests (embedding_effect x) =
      (if availableFiles x \<noteq> [] \<and> model x \<noteq> [] \<and> dataset x \<noteq> []
       then embeddingRequests x @
              [\<lparr>p_model = model x, p_dataset = dataset x, p_files = availableFiles x,
                p_method = reductionMethod x, p_nComponents = (if is3D x then 3 else 2)\<rparr>]
       else embeddingRequests x)" for x :: "'a panel"
    by (simp add: embedding_effect_def fetchEmbeddings_def)
  have a: "embeddingRequests (rerender m d fs s) =
           (if fs \<noteq> [] \<and> m \<noteq> [] \<and> d \<noteq> []
            then embeddingRequests s @
                   [\<lparr>p_model = m, p_dataset = d, p_files = fs, p_method = reductionMethod s,
                     p_nComponents = (if is3D s then 3 else 2)\<rparr>]
            else embeddingRequests s)"
  proof (cases "m = model s")
    case True
    with assms(1) have "d \<noteq> dataset s \<or> fs \<noteq> availableFiles s" by simp
    with True have "rerender m d fs s = embedding_effect ?s1"
      by (auto simp: rerender_def Let_def)
    then show ?thesis by (simp add: ee)
  next
    case False
    then have "rerender m d fs s = embedding_effect (model_effect ?s1)"
      by (simp add: rerender_def Let_def)
    then show ?thesis by (simp add: ee)
  qed
  have b: "embeddingRequests (handleReductionMethodChange method s) =
           (if availableFiles s \<noteq> [] \<and> model s \<noteq> [] \<and> dataset s \<noteq> []
            then embeddingRequests s @
                   [\<lparr>p_model = model s, p_dataset = dataset s, p_files = availableFiles s,
                     p_method = method, p_nComponents = (if is3D s then 3 else 2)\<rparr>]
            else embeddingRequests s)"
    using assms(2) by (simp add: handleReductionMethodChange_def ee)
  have c: "embeddingRequests (handle3DToggle checked s) =
           (if embeddingData s \<noteq> None \<and> availableFiles s \<noteq> []
            then embeddingRequests s @
                   [\<lparr>p_model = model s, p_dataset = dataset s, p_files = availableFiles s,
                     p_method = reductionMethod s, p_nComponents = (if checked then 3 else 2)\<rparr>]
            else embeddingRequests s)
    \<and> is3D (handle3DToggle checked s) = checked"
    by (simp add: handle3DToggle_def Let_def fetchEmbeddings_def)
  from a b c show ?thesis by simp
qed

text \<open>
  The effect has no timer and the switch has none. From the mounted panel with
  \<^verbatim>\<open>whisper-base\<close>, \<^verbatim>\<open>common-voice\<close> and one file, and with embedding data present: a new model, a
  new reduction method and the 3D switch each add one request.
\<close>

theorem embedding_request_on_change_witness:
  "(''wav2vec2'', ''common-voice'', [''a.wav'']) \<noteq>
     (model ((mount ''whisper-base'' ''common-voice'' [''a.wav''] :: nat panel)
               \<lparr>embeddingData := Some 0\<rparr>),
      dataset ((mount ''whisper-base'' ''common-voice'' [''a.wav''] :: nat panel)
               \<lparr>embeddingData := Some 0\<rparr>),
      availableFiles ((mount ''whisper-base'' ''common-voice'' [''a.wav''] :: nat panel)
               \<lparr>embeddingData := Some 0\<rparr>))
   \<and> ''umap'' \<noteq> reductionMethod ((mount ''whisper-base'' ''common-voice'' [''a.wav''] :: nat panel)
               \<lparr>embeddingData := Some 0\<rparr>)
   \<and> map p_model (embeddingRequests (rerender ''wav2vec2'' ''common-voice'' [''a.wav'']
        ((mount ''whisper-base'' ''common-voice'' [''a.wav''] :: nat panel)
               \<lparr>embeddingData := Some 0\<rparr>))) = [''whisper-base'', ''wav2vec2'']
   \<and> map p_method (embeddingRequests (handleReductionMethodChange ''umap''
        ((mount ''whisper-base'' ''common-voice'' [''a.wav''] :: nat panel)
               \<lparr>embeddingData := Some 0\<rparr>))) = [''pca'', ''umap'']
   \<and> map p_nComponents (embeddingRequests (handle3DToggle True
        ((mount ''whisper-base'' ''common-voice'' [''a.wav''] :: nat panel)
               \<lparr>embeddingData := Some 0\<rparr>))) = [2, 3]"
proof -
  let ?s = "(mount ''whisper-base'' ''common-voice'' [''a.wav''] :: nat panel)
               \<lparr>embeddingData := Some 0\<rparr>"
  have m: "model ?s = ''whisper-base'' \<and> dataset ?s = ''common-voice''
      \<and> availableFiles ?s = [''a.wav''] \<and> reductionMethod ?s = ''pca'' \<and> is3D ?s = False
      \<and> embeddingData ?s = Some 0
      \<and> embeddingRequests ?s = [\<lparr>p_model = ''whisper-base'', p_dataset = ''common-voice'',
            p_files = [''a.wav''], p_method = ''pca'', p_nComponents = 2\<rparr>]"
    by (simp add: eval_defs)
  have h1: "(''wav2vec2'', ''common-voice'', [''a.wav'']) \<noteq>
     (model ?s, dataset ?s, availableFiles ?s)" by (simp add: m)
  have h2: "''umap'' \<noteq> reductionMethod ?s" by (simp add: m)
  show ?thesis
    using embedding_request_on_change [OF h1 h2, of True] h1 h2
    by (simp add: m)
qed

text \<open>
  The claim as stated says that a change of the dimensionality issues a request whenever
  the file list is not empty and model and dataset are set. With no embedding data present
  (none has arrived yet, or the request failed) the 3D switch changes \<^verbatim>\<open>is3D\<close> and issues no
  request: the only request is the one of the mount, with 2 components.
\<close>

theorem dimensionality_change_without_request_counterexample:
  "availableFiles (mount ''whisper-base'' ''common-voice'' [''a.wav''] :: nat panel) = [''a.wav'']
   \<and> model (mount ''whisper-base'' ''common-voice'' [''a.wav''] :: nat panel) = ''whisper-base''
   \<and> dataset (mount ''whisper-base'' ''common-voice'' [''a.wav''] :: nat panel) = ''common-voice''
   \<and> is3D (mount ''whisper-base'' ''common-voice'' [''a.wav''] :: nat panel) = False
   \<and> is3D (step (Toggle3D True)
        (mount ''whisper-base'' ''common-voice'' [''a.wav''] :: nat panel)) = True
   \<and> embeddingRequests (step (Toggle3D True)
        (mount ''whisper-base'' ''common-voice'' [''a.wav''] :: nat panel))
      = embeddingRequests (mount ''whisper-base'' ''common-voice'' [''a.wav''] :: nat panel)
   \<and> map p_nComponents (embeddingRequests (step (Toggle3D True)
        (mount ''whisper-base'' ''common-voice'' [''a.wav''] :: nat panel))) = [2]"
  by (simp add: eval_defs)

subsection \<open>Invariants of every reachable state\<close>

text \<open>
  In every state the panel can reach, the only timer that can be pending is the one whose
  handle \<^verbatim>\<open>debounceRef.current\<close> holds, and the pending promises are older than the next one.
\<close>

lemma debounce_only_cong:
  "timers s' = timers s \<Longrightarrow> debounceRef s' = debounceRef s \<Longrightarrow>
   debounce_only s \<Longrightarrow> debounce_only s'"
  by (simp add: debounce_only_def)

lemma debounce_only_subset:
  "set (timers s') \<subseteq> set (timers s) \<Longrightarrow> debounceRef s' = debounceRef s \<Longrightarrow>
   debounce_only s \<Longrightarrow> debounce_only s'"
  by (auto simp: debounce_only_def list_all_iff)

lemma debounceRef_fire [simp]: "debounceRef (fire tm s) = debounceRef s"
  by (cases "t_analysisType tm")
     (simp_all add: fire_def clearAnalysisResults_def fetchBatchPredictions_def
        fetchWhisperAnalysis_def fetchFrequencyAnalysis_def post_def)

lemma run_timers_shrinks:
  "set (timers (run_timers t s)) \<subseteq> set (timers s)
   \<and> debounceRef (run_timers t s) = debounceRef s"
proof (induction t s rule: run_timers.induct)
  case (1 t s)
  show ?case
  proof (cases "next_due t (timers s)")
    case None
    then show ?thesis by (simp add: run_timers.simps)
  next
    case (Some tm)
    let ?s1 = "fire tm (s\<lparr>timers := remove1 tm (timers s), now := max (now s) (due tm)\<rparr>)"
    have r: "run_timers t s = run_timers t ?s1"
      using Some by (subst run_timers.simps) simp
    have t1: "set (timers ?s1) \<subseteq> set (timers s)"
      using set_remove1_subset [of tm "timers s"] by simp
    have d1: "debounceRef ?s1 = debounceRef s" by simp
    from "1.IH" [OF Some] t1 d1 show ?thesis unfolding r by auto
  qed
qed

lemma debounce_only_advance: "debounce_only s \<Longrightarrow> debounce_only (advance d s)"
proof -
  assume a: "debounce_only s"
  have "debounce_only (run_timers (now s + d) s)"
    by (rule debounce_only_subset [OF _ _ a]) (simp_all add: run_timers_shrinks)
  then show ?thesis by (simp add: advance_def debounce_only_def)
qed

lemma debounce_only_reschedule:
  assumes "debounce_only s"
  shows "debounce_only (schedule fs (cancel_debounce s))"
  by (simp add: reschedule [OF assms] debounce_only_def)

lemma debounce_only_angle: "debounce_only s \<Longrightarrow> debounce_only (handleAngleRangeSelect fs s)"
proof -
  assume a: "debounce_only s"
  then have b: "debounce_only (s\<lparr>selectedByAngle := sort fs\<rparr>)"
    and c: "debounce_only (s\<lparr>selectedByAngle := sort (selectedByAngle s)\<rparr>)"
    by (simp_all add: debounce_only_def)
  show ?thesis
    using debounce_only_reschedule [OF b] c by (simp add: handleAngleRangeSelect_def Let_def)
qed

lemma debounce_only_planar: "debounce_only s \<Longrightarrow> debounce_only (handle2DSelectionChange fs s)"
proof -
  assume a: "debounce_only s"
  then have b: "debounce_only (s\<lparr>selectedPoints2D := sort fs\<rparr>)"
    and c: "debounce_only (s\<lparr>selectedPoints2D := sort (selectedPoints2D s)\<rparr>)"
    by (simp_all add: debounce_only_def)
  show ?thesis
    using debounce_only_reschedule [OF b] c by (simp add: handle2DSelectionChange_def Let_def)
qed

lemma timers_resume [simp]: "timers (resume k out s) = timers s"
  by (cases k)
     (simp_all add: fetchBatchPredictions_resume_def fetchWhisperAnalysis_resume_def
        fetchFrequencyAnalysis_resume_def split: sum.splits)

lemma debounceRef_resume [simp]: "debounceRef (resume k out s) = debounceRef s"
  by (cases k)
     (simp_all add: fetchBatchPredictions_resume_def fetchWhisperAnalysis_resume_def
        fetchFrequencyAnalysis_resume_def split: sum.splits)

lemma debounce_only_settle: "debounce_only s \<Longrightarrow> debounce_only (settle p out s)"
  by (simp add: settle_def debounce_only_def split: option.splits)

lemma timers_embedding_effect [simp]:
  "timers (embedding_effect s) = timers s" "debounceRef (embedding_effect s) = debounceRef s"
  by (simp_all add: embedding_effect_def fetchEmbeddings_def)

lemma timers_model_effect [simp]:
  "timers (model_effect s) = timers s" "debounceRef (model_effect s) = debounceRef s"
  by (simp_all add: model_effect_def Let_def clearAnalysisResults_def)

lemma debounce_only_rerender: "debounce_only s \<Longrightarrow> debounce_only (rerender m d fs s)"
  by (simp add: rerender_def Let_def debounce_only_def)

lemma debounce_only_step: "debounce_only s \<Longrightarrow> debounce_only (step e s)"
proof (cases e)
  case (AngleRangeSelect fs)
  assume "debounce_only s"
  then show ?thesis using AngleRangeSelect by (simp add: debounce_only_angle)
next
  case (SelectionChange2D fs)
  assume "debounce_only s"
  then show ?thesis using SelectionChange2D by (simp add: debounce_only_planar)
next
  case (AnalysisTypeChange v)
  assume "debounce_only s"
  then show ?thesis using AnalysisTypeChange
    by (simp add: handleAnalysisTypeChange_def clearAnalysisResults_def debounce_only_def)
next
  case (ReductionMethodChange m)
  assume "debounce_only s"
  then show ?thesis using ReductionMethodChange
    by (simp add: handleReductionMethodChange_def debounce_only_def)
next
  case (Toggle3D c)
  assume "debounce_only s"
  then show ?thesis using Toggle3D
    by (simp add: handle3DToggle_def Let_def fetchEmbeddings_def debounce_only_def)
next
  case Refresh
  assume "debounce_only s"
  then show ?thesis using Refresh
    by (simp add: handleFetchEmbeddings_def fetchEmbeddings_def debounce_only_def)
next
  case (Props m d fs)
  assume "debounce_only s"
  then show ?thesis using Props by (simp add: debounce_only_rerender)
next
  case (EmbeddingData x)
  assume "debounce_only s"
  then show ?thesis using EmbeddingData by (simp add: debounce_only_def)
next
  case (Elapse d)
  assume "debounce_only s"
  then show ?thesis using Elapse by (simp add: debounce_only_advance)
next
  case (Settle p out)
  assume "debounce_only s"
  then show ?thesis using Settle by (simp add: debounce_only_settle)
qed

lemma debounce_only_run: "debounce_only s \<Longrightarrow> debounce_only (run es s)"
  by (induction es arbitrary: s) (simp_all add: debounce_only_step)

lemma debounce_only_mount: "debounce_only (mount m d fs)"
  by (simp add: mount_def debounce_only_def model_effect_def Let_def
        getAvailableAnalysisTypes_def)

lemma debounce_only_reachable: "debounce_only (run es (mount m d fs))"
  by (rule debounce_only_run) (rule debounce_only_mount)

lemma promises_fresh_cong:
  "inflight s' = inflight s \<Longrightarrow> nextPromise s' = nextPromise s \<Longrightarrow>
   promises_fresh s \<Longrightarrow> promises_fresh s'"
  by (simp add: promises_fresh_def)

lemma promises_fresh_post: "promises_fresh s \<Longrightarrow> promises_fresh (post k fs mo d s)"
  by (auto simp: promises_fresh_def post_def list_all_iff)

lemma promises_fresh_clear: "promises_fresh s \<Longrightarrow> promises_fresh (clearAnalysisResults s)"
  by (simp add: promises_fresh_def clearAnalysisResults_def)

lemma promises_fresh_fetchAnalysis:
  "promises_fresh s \<Longrightarrow> promises_fresh (fetchAnalysis k m d fs s)"
  by (cases k)
     (simp_all add: fetchBatchPredictions_def fetchWhisperAnalysis_def
        fetchFrequencyAnalysis_def promises_fresh_post)

lemma promises_fresh_fire: "promises_fresh s \<Longrightarrow> promises_fresh (fire tm s)"
  by (simp add: fire_def promises_fresh_fetchAnalysis promises_fresh_clear)

lemma promises_fresh_run_timers: "promises_fresh s \<Longrightarrow> promises_fresh (run_timers t s)"
proof (induction t s rule: run_timers.induct)
  case (1 t s)
  show ?case
  proof (cases "next_due t (timers s)")
    case None
    then show ?thesis using "1.prems" by (simp add: run_timers.simps)
  next
    case (Some tm)
    let ?s0 = "s\<lparr>timers := remove1 tm (timers s), now := max (now s) (due tm)\<rparr>"
    have r: "run_timers t s = run_timers t (fire tm ?s0)"
      using Some by (subst run_timers.simps) simp
    from "1.prems" have "promises_fresh ?s0" by (simp add: promises_fresh_def)
    then have "promises_fresh (fire tm ?s0)" by (rule promises_fresh_fire)
    then have "promises_fresh (run_timers t (fire tm ?s0))" by (rule "1.IH" [OF Some])
    then show ?thesis by (simp only: r)
  qed
qed

lemma promises_fresh_advance: "promises_fresh s \<Longrightarrow> promises_fresh (advance d s)"
proof -
  assume "promises_fresh s"
  then have "promises_fresh (run_timers (now s + d) s)" by (rule promises_fresh_run_timers)
  then show ?thesis by (simp add: advance_def promises_fresh_def)
qed

lemma nextPromise_resume [simp]: "nextPromise (resume k out s) = nextPromise s"
  by (cases k)
     (simp_all add: fetchBatchPredictions_resume_def fetchWhisperAnalysis_resume_def
        fetchFrequencyAnalysis_resume_def split: sum.splits)

lemma promises_fresh_settle: "promises_fresh s \<Longrightarrow> promises_fresh (settle p out s)"
proof (cases "find (\<lambda>r. promise r = p) (inflight s)")
  case None
  then show "promises_fresh s \<Longrightarrow> ?thesis" by (simp add: settle_def)
next
  case (Some r)
  assume a: "promises_fresh s"
  have "set (remove1 r (inflight s)) \<subseteq> set (inflight s)" by (rule set_remove1_subset)
  with a have "list_all (\<lambda>x. promise x < nextPromise s) (remove1 r (inflight s))"
    by (auto simp: promises_fresh_def list_all_iff)
  then show ?thesis using Some by (simp add: settle_def promises_fresh_def)
qed

lemma inflight_select [simp]:
  "inflight (schedule fs s) = inflight s" "nextPromise (schedule fs s) = nextPromise s"
  "inflight (cancel_debounce s) = inflight s" "nextPromise (cancel_debounce s) = nextPromise s"
  by (simp_all add: schedule_def cancel_debounce_def clearTimeout_def split: option.splits)

lemma inflight_effects [simp]:
  "inflight (embedding_effect s) = inflight s" "nextPromise (embedding_effect s) = nextPromise s"
  "inflight (model_effect s) = inflight s" "nextPromise (model_effect s) = nextPromise s"
  by (simp_all add: embedding_effect_def fetchEmbeddings_def model_effect_def Let_def
        clearAnalysisResults_def)

lemma promises_fresh_step: "promises_fresh s \<Longrightarrow> promises_fresh (step e s)"
proof (cases e)
  case (AngleRangeSelect fs)
  assume "promises_fresh s"
  then show ?thesis using AngleRangeSelect
    by (simp add: handleAngleRangeSelect_def Let_def promises_fresh_def)
next
  case (SelectionChange2D fs)
  assume "promises_fresh s"
  then show ?thesis using SelectionChange2D
    by (simp add: handle2DSelectionChange_def Let_def promises_fresh_def)
next
  case (AnalysisTypeChange v)
  assume "promises_fresh s"
  then show ?thesis using AnalysisTypeChange
    by (simp add: handleAnalysisTypeChange_def clearAnalysisResults_def promises_fresh_def)
next
  case (ReductionMethodChange m)
  assume "promises_fresh s"
  then show ?thesis using ReductionMethodChange
    by (simp add: handleReductionMethodChange_def promises_fresh_def)
next
  case (Toggle3D c)
  assume "promises_fresh s"
  then show ?thesis using Toggle3D
    by (simp add: handle3DToggle_def Let_def fetchEmbeddings_def promises_fresh_def)
next
  case Refresh
  assume "promises_fresh s"
  then show ?thesis using Refresh
    by (simp add: handleFetchEmbeddings_def fetchEmbeddings_def promises_fresh_def)
next
  case (Props m d fs)
  assume "promises_fresh s"
  then show ?thesis using Props by (simp add: rerender_def Let_def promises_fresh_def)
next
  case (EmbeddingData x)
  assume "promises_fresh s"
  then show ?thesis using EmbeddingData by (simp add: promises_fresh_def)
next
  case (Elapse d)
  assume "promises_fresh s"
  then show ?thesis using Elapse by (simp add: promises_fresh_advance)
next
  case (Settle p out)
  assume "promises_fresh s"
  then show ?thesis using Settle by (simp add: promises_fresh_settle)
qed

lemma promises_fresh_run: "promises_fresh s \<Longrightarrow> promises_fresh (run es s)"
  by (induction es arbitrary: s) (simp_all add: promises_fresh_step)

lemma promises_fresh_reachable: "promises_fresh (run es (mount m d fs))"
  by (rule promises_fresh_run)
     (simp add: mount_def promises_fresh_def model_effect_def Let_def
        getAvailableAnalysisTypes_def)

subsection \<open>The debounce on a burst of selections\<close>

lemma run_append: "run (xs @ ys) s = run ys (run xs s)"
  by (induction xs arbitrary: s) simp_all

lemma burst_append: "burst (xs @ ys) = burst xs @ burst ys"
  by (induction xs rule: burst.induct) simp_all

lemma changes_snoc:
  "changes k (xs @ [f]) \<longleftrightarrow>
     changes k xs \<and> f \<noteq> [] \<and> selection_key f \<noteq> (if xs = [] then k else selection_key (last xs))"
  by (induction xs arbitrary: k) auto

lemma angle_change_step:
  assumes d: "debounce_only s"
    and k: "selection_key f \<noteq> selection_key (selectedByAngle s)"
  shows "handleAngleRangeSelect f s =
     s\<lparr>selectedByAngle := sort f, debounceRef := Some (nextHandle s),
       timers := [\<lparr>handle = nextHandle s, due = now s + 300, t_files = sort f,
                  t_analysisType = analysisType s, t_model = model s, t_dataset = dataset s\<rparr>],
       nextHandle := nextHandle s + 1\<rparr>"
proof -
  let ?a = "s\<lparr>selectedByAngle := sort f\<rparr>"
  have da: "debounce_only ?a" using d by (simp add: debounce_only_def)
  from k have "handleAngleRangeSelect f s = schedule (sort f) (cancel_debounce ?a)"
    by (auto simp: handleAngleRangeSelect_def Let_def)
  then show ?thesis by (simp add: reschedule [OF da])
qed

lemma advance_early:
  assumes "timers s = [tm]" and "now s + d < due tm"
  shows "advance d s = s\<lparr>now := now s + d\<rparr>"
  using run_timers_early [OF assms] by (simp add: advance_def)

lemma advance_due:
  assumes "timers s = [tm]" and "due tm \<le> now s + d"
  shows "advance d s = (fire tm (s\<lparr>timers := [], now := max (now s) (due tm)\<rparr>))\<lparr>now := now s + d\<rparr>"
  using run_timers_due [OF assms] by (simp add: advance_def)

lemma burst_prefix:
  assumes "debounce_only s"
    and "changes (selection_key (selectedByAngle s)) (map fst es)"
    and "list_all (\<lambda>e. snd e < 300) es"
  shows "debounce_only (run (burst es) s)
    \<and> inflight (run (burst es) s) = inflight s
    \<and> nextPromise (run (burst es) s) = nextPromise s
    \<and> analysisType (run (burst es) s) = analysisType s
    \<and> model (run (burst es) s) = model s
    \<and> dataset (run (burst es) s) = dataset s
    \<and> selection_key (selectedByAngle (run (burst es) s)) =
        (if es = [] then selection_key (selectedByAngle s) else selection_key (fst (last es)))"
  using assms
proof (induction es arbitrary: s)
  case Nil
  then show ?case by simp
next
  case (Cons e es)
  obtain f d where e: "e = (f, d)" by (cases e)
  from Cons.prems e have f: "f \<noteq> []" and k: "selection_key f \<noteq> selection_key (selectedByAngle s)"
    and rest: "changes (selection_key f) (map fst es)" and d: "d < 300"
    and gaps: "list_all (\<lambda>e. snd e < 300) es"
    by auto
  let ?tm = "\<lparr>handle = nextHandle s, due = now s + 300, t_files = sort f,
              t_analysisType = analysisType s, t_model = model s, t_dataset = dataset s\<rparr>"
  let ?s1 = "handleAngleRangeSelect f s"
  have s1: "?s1 = s\<lparr>selectedByAngle := sort f, debounceRef := Some (nextHandle s),
       timers := [?tm], nextHandle := nextHandle s + 1\<rparr>"
    by (rule angle_change_step [OF Cons.prems(1) k])
  have t1: "timers ?s1 = [?tm]" and n1: "now ?s1 = now s" by (simp_all add: s1)
  let ?s2 = "advance d ?s1"
  have s2: "?s2 = ?s1\<lparr>now := now ?s1 + d\<rparr>"
    using d n1 by (intro advance_early [OF t1]) simp
  have inv2: "debounce_only ?s2" by (simp add: s2) (simp add: s1 debounce_only_def)
  have sel2: "selectedByAngle ?s2 = sort f" by (simp add: s2) (simp add: s1)
  have fr2: "inflight ?s2 = inflight s \<and> nextPromise ?s2 = nextPromise s
      \<and> analysisType ?s2 = analysisType s \<and> model ?s2 = model s \<and> dataset ?s2 = dataset s"
    by (simp add: s2) (simp add: s1)
  have ch2: "changes (selection_key (selectedByAngle ?s2)) (map fst es)"
    using rest by (simp add: sel2)
  note ih = Cons.IH [OF inv2 ch2 gaps]
  have r: "run (burst (e # es)) s = run (burst es) ?s2" by (simp add: e)
  show ?case
    unfolding r using ih fr2 sel2 by (auto simp: e)
qed

text \<open>
  The trailing debounce. When every selection of a burst is non-empty and detected as a
  change, each one arrives less than 300 units after the previous one, and at least 300
  units pass after the last one, then exactly one backend call is made over the whole burst:
  for the files of the last selection, with the analysis kind, model and dataset of the
  panel.
\<close>

lemma burst_dispatches_last:
  assumes "debounce_only s"
    and "changes (selection_key (selectedByAngle s)) (map fst es @ [f])"
    and "list_all (\<lambda>e. snd e < 300) es"
    and "300 \<le> d"
  shows "inflight (run (burst (es @ [(f, d)])) s) =
           inflight s @
             [\<lparr>promise = nextPromise s, r_kind = analysisType s, r_filenames = sort f,
               r_model = (if analysisType s = predictions then None else Some (model s)),
               r_dataset = (if dataset s \<noteq> [] then Some (dataset s) else None)\<rparr>]"
proof -
  let ?s0 = "run (burst es) s"
  from assms(2) have ch: "changes (selection_key (selectedByAngle s)) (map fst es)"
    and f: "f \<noteq> []"
    and kf: "selection_key f \<noteq>
               (if es = [] then selection_key (selectedByAngle s) else selection_key (last (map fst es)))"
    by (simp_all add: changes_snoc)
  note p = burst_prefix [OF assms(1) ch assms(3)]
  from p have inv: "debounce_only ?s0" by simp
  have lastmap: "es \<noteq> [] \<Longrightarrow> last (map fst es) = fst (last es)" by (simp add: last_map)
  from p kf have k: "selection_key f \<noteq> selection_key (selectedByAngle ?s0)"
    by (auto simp: lastmap split: if_splits)
  let ?tm = "\<lparr>handle = nextHandle ?s0, due = now ?s0 + 300, t_files = sort f,
              t_analysisType = analysisType ?s0, t_model = model ?s0, t_dataset = dataset ?s0\<rparr>"
  let ?s1 = "handleAngleRangeSelect f ?s0"
  have s1: "?s1 = ?s0\<lparr>selectedByAngle := sort f, debounceRef := Some (nextHandle ?s0),
       timers := [?tm], nextHandle := nextHandle ?s0 + 1\<rparr>"
    by (rule angle_change_step [OF inv k])
  have t1: "timers ?s1 = [?tm]" and n1: "now ?s1 = now ?s0" by (simp_all add: s1)
  have s2: "advance d ?s1 =
      (fire ?tm (?s1\<lparr>timers := [], now := max (now ?s1) (due ?tm)\<rparr>))\<lparr>now := now ?s1 + d\<rparr>"
    using assms(4) n1 by (intro advance_due [OF t1]) simp
  have sf: "sort f \<noteq> []" using f by (cases f) (simp_all add: insort_is_Cons)
  have fi: "inflight (fire ?tm x) = inflight x @
             [\<lparr>promise = nextPromise x, r_kind = analysisType ?s0, r_filenames = sort f,
               r_model = (if analysisType ?s0 = predictions then None else Some (model ?s0)),
               r_dataset = (if dataset ?s0 \<noteq> [] then Some (dataset ?s0) else None)\<rparr>]"
    for x :: "'a panel"
    using sf
    by (cases "analysisType ?s0")
       (simp_all add: fire_def fetchBatchPredictions_def fetchWhisperAnalysis_def
          fetchFrequencyAnalysis_def post_def)
  have "run (burst (es @ [(f, d)])) s = advance d ?s1"
    by (simp add: burst_append run_append)
  then have "inflight (run (burst (es @ [(f, d)])) s) =
      inflight (fire ?tm (?s1\<lparr>timers := [], now := max (now ?s1) (due ?tm)\<rparr>))"
    by (simp add: s2)
  also have "\<dots> = inflight ?s0 @
             [\<lparr>promise = nextPromise ?s0, r_kind = analysisType ?s0, r_filenames = sort f,
               r_model = (if analysisType ?s0 = predictions then None else Some (model ?s0)),
               r_dataset = (if dataset ?s0 \<noteq> [] then Some (dataset ?s0) else None)\<rparr>]"
    by (subst fi) (simp add: s1)
  finally show ?thesis using p by simp
qed

text \<open>Three selections, 100 units apart, from the mounted panel.\<close>

lemma burst_dispatches_last_example:
  "map r_filenames (inflight
     (run (burst [([''a.wav''], 100), ([''b.wav'', ''a.wav''], 100), ([''c.wav''], 300)])
        (mount ''whisper-base'' ''common-voice'' [''a.wav'', ''b.wav'', ''c.wav''] :: nat panel)))
   = [[''c.wav'']]"
proof -
  let ?s = "mount ''whisper-base'' ''common-voice'' [''a.wav'', ''b.wav'', ''c.wav''] :: nat panel"
  have i: "inflight ?s = []" and sel: "selectedByAngle ?s = []" by (simp_all add: eval_defs)
  have c: "changes (selection_key (selectedByAngle ?s))
             (map fst [([''a.wav''], 100::nat), ([''b.wav'', ''a.wav''], 100)] @ [[''c.wav'']])"
    by (simp add: sel selection_key_def)
  have g: "list_all (\<lambda>e. snd e < 300) [([''a.wav''], 100::nat), ([''b.wav'', ''a.wav''], 100)]"
    by simp
  show ?thesis
    using burst_dispatches_last [OF debounce_only_mount c g, of 300] by (simp add: i)
qed

text \<open>
  Claim C3. The claim says that a burst of distinct non-empty selections, each within the
  quiet period of the previous one, dispatches one fetch whose payload is the file set of
  the last event. The selection \<^verbatim>\<open>["a,b"]\<close> followed 100 units later by the different selection
  \<^verbatim>\<open>["a","b"]\<close> dispatches one fetch, and its payload is \<^verbatim>\<open>["a,b"]\<close>, the file set of the first
  event: the two selections have the same comma-joined text, so the second event neither
  cancels the timer of the first nor schedules its own.
\<close>

theorem debounce_uses_stale_payload:
  "selection_key [''a,b''] = selection_key [''a'', ''b'']
   \<and> map r_filenames (inflight
     (run [AngleRangeSelect [''a,b''], Elapse 100, AngleRangeSelect [''a'', ''b''], Elapse 300]
        (mount ''whisper-base'' ''common-voice'' [''a,b'', ''a'', ''b''] :: nat panel)))
     = [[''a,b'']]"
  by (simp add: eval_defs)

end
